theory Spec2Isabelle
  imports Main "HOL-Library.Sublist"
begin

section \<open>Time values of the Go standard library\<close>

text \<open>
  A \<open>time.Duration\<close> is a signed 64-bit count of nanoseconds. A \<open>time.Time\<close> is
  an instant on one time line; it is modelled as a count of nanoseconds since the zero
  \<open>time.Time{}\<close>. The range of \<open>time.Time\<close> (64-bit seconds) is far wider than what a
  wall clock or a parsed timestamp plus a \<open>Duration\<close> reaches, so \<open>Add\<close> is plain
  addition; \<open>Sub\<close> saturates at the bounds of \<open>Duration\<close>, as its documentation says.
\<close>

type_synonym Time = int
type_synonym Duration = int

definition Second :: Duration where
  "Second = 1000000000"

definition Hour :: Duration where
  "Hour = 3600 * Second"

definition minDuration :: Duration where
  "minDuration = - (2 ^ 63)"

definition maxDuration :: Duration where
  "maxDuration = 2 ^ 63 - 1"

definition zeroTime :: Time where
  "zeroTime = 0"

definition Time_Add :: "Time \<Rightarrow> Duration \<Rightarrow> Time" where
  "Time_Add t d = t + d"

definition Time_After :: "Time \<Rightarrow> Time \<Rightarrow> bool" where
  "Time_After t u = (u < t)"

definition Time_Before :: "Time \<Rightarrow> Time \<Rightarrow> bool" where
  "Time_Before t u = (t < u)"

definition Time_Sub :: "Time \<Rightarrow> Time \<Rightarrow> Duration" where
  "Time_Sub t u =
     (if t - u < minDuration then minDuration
      else if maxDuration < t - u then maxDuration
      else t - u)"

text \<open>\<open>time.Until(t)\<close> is \<open>t.Sub(time.Now())\<close>; the clock reading is the second argument.\<close>

definition time_Until :: "Time \<Rightarrow> Time \<Rightarrow> Duration" where
  "time_Until t now = Time_Sub t now"

section \<open>The WireGuard keys manager (service/wgkeys/manager.go)\<close>

datatype error =
    ErrInitFailed
  | ErrStartNotInitialized
  | ErrStartIntervalNotDefined
  | ErrNotInitialized
  | ErrIntervalNotDefined
  | ErrReadPreferences error
  | ErrSaveMarshal error
  | ErrExternal string

text \<open>The six values returned by \<open>WireGuardGetKeys\<close>.\<close>

record KeysInfo =
  session :: string
  wgPublicKey :: string
  wgPrivateKey :: string
  wgLocalIP :: string
  generatedTime :: Time
  updateInterval :: Duration

text \<open>
  The interface \<open>IWgKeysChangeReceiver\<close>, as a record of functions over the receiver's
  state \<open>'s\<close>. \<open>WireGuardSaveNewKeys\<close> takes, after the three arguments of the
  source, the clock reading available to the receiver during the call.
\<close>

record 's IWgKeysChangeReceiver =
  WireGuardSaveNewKeys :: "string \<Rightarrow> string \<Rightarrow> string \<Rightarrow> Time \<Rightarrow> 's \<Rightarrow> 's"
  WireGuardGetKeys :: "'s \<Rightarrow> KeysInfo"
  Connected :: "'s \<Rightarrow> bool"

text \<open>
  \<open>KeysManager\<close>: only \<open>_service\<close> carries data that the manager's control flow
  inspects. The mutex and the stop channel appear as events of the trace below (and the
  mutex as a flag of the interleaved system further down); the API object and the path of
  the key tool are behind the answers of \<open>CallEnv\<close>.
\<close>

record 's KeysManager =
  m_service :: "'s IWgKeysChangeReceiver option"

text \<open>What one call does to the outside, in program order.\<close>

datatype Event =
    EvMutexLock
  | EvMutexUnlock
  | EvGenerateKeys
  | EvWireGuardKeySet string string string
  | EvSaveNewKeys string string string
  | EvStopKeysRotation
  | EvGoRotationLoop

text \<open>
  What the outside answers during one call of \<open>generateKeys\<close>, in the order in which the
  call meets it: the clock at the unlocked check; what other goroutines do to the
  receiver's state while the call blocks in \<open>m._mutex.Lock()\<close>; the clock at the locked
  check; the result of \<open>wireguard.GenerateKeys\<close> (public key, private key) and what the
  others do while it runs; the result of \<open>api.WireGuardKeySet\<close> for the arguments it
  is given (the local IP) and what the others do while it runs; the clock at the save.
\<close>

record 's CallEnv =
  nowUnlocked :: Time
  whileLockWait :: "'s \<Rightarrow> 's"
  nowLocked :: Time
  wireguard_GenerateKeys :: "error + (string \<times> string)"
  whileKeyGen :: "'s \<Rightarrow> 's"
  api_WireGuardKeySet :: "string \<Rightarrow> string \<Rightarrow> string \<Rightarrow> error + string"
  whileKeySet :: "'s \<Rightarrow> 's"
  nowSave :: Time

record 's CallResult =
  retErr :: "error option"
  world :: 's
  trace :: "Event list"

definition Init :: "'s KeysManager \<Rightarrow> 's IWgKeysChangeReceiver option \<Rightarrow> error option \<times> 's KeysManager" where
  "Init m receiver =
     (if receiver = None \<or> m_service m \<noteq> None then (Some ErrInitFailed, m)
      else (None, m\<lparr>m_service := receiver\<rparr>))"

text \<open>
  \<open>StartKeysRotation\<close>: the returned error and the events. \<open>EvGoRotationLoop\<close> is the
  \<open>go func()\<close> statement; the receiver's state is only read.
\<close>

definition StartKeysRotation :: "'s KeysManager \<Rightarrow> 's \<Rightarrow> error option \<times> Event list" where
  "StartKeysRotation m st =
     (case m_service m of
        None \<Rightarrow> (Some ErrStartNotInitialized, [])
      | Some svc \<Rightarrow>
          (let k = WireGuardGetKeys svc st in
           if updateInterval k \<le> 0 then (Some ErrStartIntervalNotDefined, [EvStopKeysRotation])
           else if length (wgPublicKey k) = 0 then (None, [EvStopKeysRotation])
           else (None, [EvStopKeysRotation, EvGoRotationLoop])))"

text \<open>The closure \<open>isNecessaryUpdate\<close> of \<open>generateKeys\<close>, over the values it captures.\<close>

definition isNecessaryUpdate :: "bool \<Rightarrow> KeysInfo \<Rightarrow> Time \<Rightarrow> bool \<times> error option" where
  "isNecessaryUpdate onlyUpdateIfNecessary k now =
     (if onlyUpdateIfNecessary = False then (True, None)
      else if updateInterval k \<le> 0 then (False, Some ErrIntervalNotDefined)
      else if length (wgPublicKey k) > 0
              \<and> Time_After (Time_Add (generatedTime k) (updateInterval k)) now
           then (False, None)
      else (True, None))"

definition generateKeys :: "bool \<Rightarrow> 's KeysManager \<Rightarrow> 's CallEnv \<Rightarrow> 's \<Rightarrow> 's CallResult" where
  "generateKeys onlyUpdateIfNecessary m env st =
     (case m_service m of
        None \<Rightarrow> \<lparr>retErr = Some ErrNotInitialized, world = st, trace = []\<rparr>
      | Some svc \<Rightarrow>
          (case isNecessaryUpdate onlyUpdateIfNecessary (WireGuardGetKeys svc st) (nowUnlocked env) of
             (haveToUpdate, err) \<Rightarrow>
               if haveToUpdate = False \<or> err \<noteq> None
               then \<lparr>retErr = err, world = st, trace = []\<rparr>
               else
                 (let st1 = whileLockWait env st;
                      k = WireGuardGetKeys svc st1
                  in case isNecessaryUpdate onlyUpdateIfNecessary k (nowLocked env) of
                    (haveToUpdate2, err2) \<Rightarrow>
                      if haveToUpdate2 = False \<or> err2 \<noteq> None
                      then \<lparr>retErr = err2, world = st1, trace = [EvMutexLock, EvMutexUnlock]\<rparr>
                      else
                        (let st2 = whileKeyGen env st1
                         in case wireguard_GenerateKeys env of
                           Inl e \<Rightarrow>
                             \<lparr>retErr = Some e, world = st2,
                              trace = [EvMutexLock, EvGenerateKeys, EvMutexUnlock]\<rparr>
                         | Inr (pub, priv) \<Rightarrow>
                             (let activeKeyToUpdate =
                                    (if Connected svc st2 = False then [] else wgPublicKey k);
                                  st3 = whileKeySet env st2
                              in case api_WireGuardKeySet env (session k) pub activeKeyToUpdate of
                                   Inl e \<Rightarrow>
                                     \<lparr>retErr = Some e, world = st3,
                                      trace = [EvMutexLock, EvGenerateKeys,
                                               EvWireGuardKeySet (session k) pub activeKeyToUpdate,
                                               EvMutexUnlock]\<rparr>
                                 | Inr localIP \<Rightarrow>
                                     (let st' = WireGuardSaveNewKeys svc pub priv localIP (nowSave env) st3
                                      in \<lparr>retErr = None, world = st',
                                          trace = [EvMutexLock, EvGenerateKeys,
                                                   EvWireGuardKeySet (session k) pub activeKeyToUpdate,
                                                   EvSaveNewKeys pub priv localIP]
                                                  @ (if length (wgPublicKey k) = 0
                                                     then snd (StartKeysRotation m st') else [])
                                                  @ [EvMutexUnlock]\<rparr>))))))"

definition GenerateKeys :: "'s KeysManager \<Rightarrow> 's CallEnv \<Rightarrow> 's \<Rightarrow> 's CallResult" where
  "GenerateKeys m env st = generateKeys False m env st"

definition UpdateKeysIfNecessary :: "'s KeysManager \<Rightarrow> 's CallEnv \<Rightarrow> 's \<Rightarrow> 's CallResult" where
  "UpdateKeysIfNecessary m env st = generateKeys True m env st"

text \<open>Counting the calls in a trace.\<close>

fun isSave :: "Event \<Rightarrow> bool" where
  "isSave (EvSaveNewKeys _ _ _) = True"
| "isSave _ = False"

fun isKeySet :: "Event \<Rightarrow> bool" where
  "isKeySet (EvWireGuardKeySet _ _ _) = True"
| "isKeySet _ = False"

definition keygenCalls :: "Event list \<Rightarrow> nat" where
  "keygenCalls evs = length (filter (\<lambda>e. e = EvGenerateKeys) evs)"

definition issuanceCalls :: "Event list \<Rightarrow> nat" where
  "issuanceCalls evs = length (filter isKeySet evs)"

definition saveCalls :: "Event list \<Rightarrow> nat" where
  "saveCalls evs = length (filter isSave evs)"

definition loopStarts :: "Event list \<Rightarrow> nat" where
  "loopStarts evs = length (filter (\<lambda>e. e = EvGoRotationLoop) evs)"

subsection \<open>The rotation loop started by \<open>StartKeysRotation\<close>\<close>

datatype SelectCase = TimerFired | StopReceived

text \<open>
  What the outside answers during one iteration of the loop: the clock inside
  \<open>time.Until\<close>, at \<open>lastUpdate = time.Now()\<close> and at \<open>Before(time.Now())\<close>; which
  case of the \<open>select\<close> is taken; what other goroutines do to the receiver's state while
  the loop blocks in the \<open>select\<close>; the answers to the call of \<open>UpdateKeysIfNecessary\<close>.
\<close>

record 's LoopEnv =
  nowUntil :: Time
  nowFailed :: Time
  nowBefore :: Time
  selected :: SelectCase
  duringWait :: "'s \<Rightarrow> 's"
  callEnv :: "'s CallEnv"

text \<open>
  The wait of one iteration: lines 103 to 113 of the source. The variables \<open>lastUpdate\<close>
  and \<open>interval\<close> are read anew from the receiver at the top of every iteration, so the
  only variable that carries over between iterations is \<open>isLastUpdateFailed\<close>.
\<close>

definition loopWaitInterval :: "bool \<Rightarrow> KeysInfo \<Rightarrow> Time \<Rightarrow> Time \<Rightarrow> Time \<Rightarrow> Duration" where
  "loopWaitInterval isLastUpdateFailed k nowU nowF nowB =
     (let lastUpdate = generatedTime k;
          interval = updateInterval k;
          waitInterval = time_Until (Time_Add lastUpdate interval) nowU;
          (waitInterval, lastUpdate) =
             (if isLastUpdateFailed then (Hour, nowF) else (waitInterval, lastUpdate))
      in if Time_Before (Time_Add lastUpdate waitInterval) nowB then Second else waitInterval)"

record 's LoopStep =
  waited :: Duration
  needStop :: bool
  failedAfter :: bool
  worldAfter :: 's
  traceOf :: "Event list"

text \<open>
  One iteration of the loop. The goroutine exists only after \<open>StartKeysRotation\<close> has
  seen a receiver; a missing receiver would be a nil dereference, the value \<open>None\<close>.
\<close>

definition loopIteration :: "'s KeysManager \<Rightarrow> 's LoopEnv \<Rightarrow> bool \<Rightarrow> 's \<Rightarrow> 's LoopStep option" where
  "loopIteration m env isLastUpdateFailed st =
     (case m_service m of
        None \<Rightarrow> None
      | Some svc \<Rightarrow>
          (let waitInterval = loopWaitInterval isLastUpdateFailed (WireGuardGetKeys svc st)
                                (nowUntil env) (nowFailed env) (nowBefore env);
               st1 = duringWait env st
           in case selected env of
                TimerFired \<Rightarrow>
                  (let r = UpdateKeysIfNecessary m (callEnv env) st1
                   in Some \<lparr>waited = waitInterval, needStop = False,
                            failedAfter = (retErr r \<noteq> None),
                            worldAfter = world r, traceOf = trace r\<rparr>)
              | StopReceived \<Rightarrow>
                  Some \<lparr>waited = waitInterval, needStop = True,
                        failedAfter = isLastUpdateFailed,
                        worldAfter = st1, traceOf = []\<rparr>))"

text \<open>
  The loop \<open>for needStop == false\<close>, over the answers of the outside for each iteration
  (the loop itself runs until a stop is received): the steps taken, in order.
\<close>

fun rotationLoop :: "'s KeysManager \<Rightarrow> 's LoopEnv list \<Rightarrow> bool \<Rightarrow> 's \<Rightarrow> 's LoopStep list" where
  "rotationLoop m [] isLastUpdateFailed st = []"
| "rotationLoop m (env # envs) isLastUpdateFailed st =
     (case loopIteration m env isLastUpdateFailed st of
        None \<Rightarrow> []
      | Some r \<Rightarrow>
          r # (if needStop r then [] else rotationLoop m envs (failedAfter r) (worldAfter r)))"

subsection \<open>A receiver\<close>

record Store =
  keys :: KeysInfo
  isConnected :: bool

text \<open>
  Modelled from the spec: the Credential Store behind \<open>IWgKeysChangeReceiver\<close> (the
  service that implements the interface is not among the sources). The spec, section 6:
  \<open>getCurrentKeyState\<close> returns the session token, the keys, the local address, the
  generation time and the interval; \<open>persistNewKeyState\<close> commits the new keypair and
  address with a "generated now" timestamp; \<open>isTunnelConnected\<close> reports the connection
  state.
\<close>

definition specReceiver :: "Store IWgKeysChangeReceiver" where
  "specReceiver =
     \<lparr>WireGuardSaveNewKeys = (\<lambda>pub priv ip now s.
          s\<lparr>keys := (keys s)\<lparr>wgPublicKey := pub, wgPrivateKey := priv,
                               wgLocalIP := ip, generatedTime := now\<rparr>\<rparr>),
      WireGuardGetKeys = keys,
      Connected = isConnected\<rparr>"

subsection \<open>Concurrent calls of \<open>generateKeys\<close>\<close>

text \<open>
  Several goroutines run \<open>generateKeys\<close> on one manager. Each call is cut at its
  blocking points, and a schedule interleaves the pieces. The places of a call:
  before the unlocked check (line 164); blocked in \<open>m._mutex.Lock()\<close> (line 195); holding
  the mutex before the locked check (line 199); inside \<open>wireguard.GenerateKeys\<close>
  (line 206); inside \<open>api.WireGuardKeySet\<close>, called with the generated keys and the
  old key to replace (line 219); before the save, with the keys and the assigned address
  (line 227); returned. A piece ends where the call blocks next, so the step out of a
  blocking call is its return, and what happens meanwhile is scheduled before that step.
\<close>

datatype Pc =
    PcStart
  | PcLock
  | PcLocked
  | PcKeyGen
  | PcKeySet string string string
  | PcSave string string string
  | PcReturned "error option"

text \<open>
  One call: its place, its argument, and its variables \<open>session\<close>, \<open>activePublicKey\<close>,
  \<open>lastUpdate\<close> and \<open>interval\<close> (the last value read from the receiver).
\<close>

record Call =
  pc :: Pc
  onlyUpdateIfNecessary :: bool
  captured :: KeysInfo

text \<open>The mutex, the receiver's state, the calls, and what they did (with the index of the call).\<close>

record 's Sys =
  mutexLocked :: bool
  state :: 's
  calls :: "Call list"
  history :: "(nat \<times> Event) list"

text \<open>What the outside answers to one piece of a call.\<close>

record Answers =
  clock :: Time
  keygenResult :: "error + (string \<times> string)"
  keysetResult :: "string \<Rightarrow> string \<Rightarrow> string \<Rightarrow> error + string"

text \<open>A schedule is a list of actions: call \<open>i\<close> runs its next piece, or something else changes the receiver's state.\<close>

datatype 's Action = Step nat Answers | Other "'s \<Rightarrow> 's"

fun pastGuard :: "Pc \<Rightarrow> bool" where
  "pastGuard PcLocked = True"
| "pastGuard PcKeyGen = True"
| "pastGuard (PcKeySet _ _ _) = True"
| "pastGuard (PcSave _ _ _) = True"
| "pastGuard _ = False"

definition holders :: "'s Sys \<Rightarrow> nat" where
  "holders s = length (filter (\<lambda>c. pastGuard (pc c)) (calls s))"

text \<open>The mutex is held exactly when one call is past it, and then by that call alone.\<close>

definition guarded :: "'s Sys \<Rightarrow> bool" where
  "guarded s = (holders s = (if mutexLocked s then 1 else 0))"

definition release :: "nat \<Rightarrow> error option \<Rightarrow> Event list \<Rightarrow> 's Sys \<Rightarrow> 's Sys" where
  "release i err evs s =
     s\<lparr>mutexLocked := False,
       calls := (calls s)[i := (calls s ! i)\<lparr>pc := PcReturned err\<rparr>],
       history := history s @ map (Pair i) (evs @ [EvMutexUnlock])\<rparr>"

definition goto :: "nat \<Rightarrow> Pc \<Rightarrow> Event list \<Rightarrow> 's Sys \<Rightarrow> 's Sys" where
  "goto i p evs s =
     s\<lparr>calls := (calls s)[i := (calls s ! i)\<lparr>pc := p\<rparr>],
       history := history s @ map (Pair i) evs\<rparr>"

definition capture :: "nat \<Rightarrow> KeysInfo \<Rightarrow> 's Sys \<Rightarrow> 's Sys" where
  "capture i k s = s\<lparr>calls := (calls s)[i := (calls s ! i)\<lparr>captured := k\<rparr>]\<rparr>"

text \<open>
  The next piece of call \<open>i\<close>; \<open>None\<close> when the call cannot move (it has returned, it
  waits for a held mutex, or there is no such call). A piece past the entry check of
  \<open>m._service\<close> with no receiver does not occur and is \<open>None\<close> as well.
\<close>

definition callStep :: "'s KeysManager \<Rightarrow> nat \<Rightarrow> Answers \<Rightarrow> 's Sys \<Rightarrow> 's Sys option" where
  "callStep m i a s =
     (if length (calls s) \<le> i then None
      else
        (let c = calls s ! i in
         case pc c of
           PcStart \<Rightarrow>
             (case m_service m of
                None \<Rightarrow> Some (goto i (PcReturned (Some ErrNotInitialized)) [] s)
              | Some svc \<Rightarrow>
                  (let k = WireGuardGetKeys svc (state s) in
                   case isNecessaryUpdate (onlyUpdateIfNecessary c) k (clock a) of
                     (haveToUpdate, err) \<Rightarrow>
                       if haveToUpdate = False \<or> err \<noteq> None
                       then Some (goto i (PcReturned err) [] (capture i k s))
                       else Some (goto i PcLock [] (capture i k s))))
         | PcLock \<Rightarrow>
             if mutexLocked s then None
             else Some (goto i PcLocked [EvMutexLock] (s\<lparr>mutexLocked := True\<rparr>))
         | PcLocked \<Rightarrow>
             (case m_service m of
                None \<Rightarrow> None
              | Some svc \<Rightarrow>
                  (let k = WireGuardGetKeys svc (state s) in
                   case isNecessaryUpdate (onlyUpdateIfNecessary c) k (clock a) of
                     (haveToUpdate, err) \<Rightarrow>
                       if haveToUpdate = False \<or> err \<noteq> None
                       then Some (release i err [] (capture i k s))
                       else Some (goto i PcKeyGen [] (capture i k s))))
         | PcKeyGen \<Rightarrow>
             (case m_service m of
                None \<Rightarrow> None
              | Some svc \<Rightarrow>
                  (case keygenResult a of
                     Inl e \<Rightarrow> Some (release i (Some e) [EvGenerateKeys] s)
                   | Inr (pub, priv) \<Rightarrow>
                       Some (goto i
                               (PcKeySet pub priv
                                  (if Connected svc (state s) = False then []
                                   else wgPublicKey (captured c)))
                               [EvGenerateKeys] s)))
         | PcKeySet pub priv activeKeyToUpdate \<Rightarrow>
             (let k = captured c;
                  ev = EvWireGuardKeySet (session k) pub activeKeyToUpdate
              in case keysetResult a (session k) pub activeKeyToUpdate of
                   Inl e \<Rightarrow> Some (release i (Some e) [ev] s)
                 | Inr localIP \<Rightarrow> Some (goto i (PcSave pub priv localIP) [ev] s))
         | PcSave pub priv localIP \<Rightarrow>
             (case m_service m of
                None \<Rightarrow> None
              | Some svc \<Rightarrow>
                  (let st' = WireGuardSaveNewKeys svc pub priv localIP (clock a) (state s)
                   in Some (release i None
                              (EvSaveNewKeys pub priv localIP
                               # (if length (wgPublicKey (captured c)) = 0
                                  then snd (StartKeysRotation m st') else []))
                              (s\<lparr>state := st'\<rparr>))))
         | PcReturned _ \<Rightarrow> None))"

definition perform :: "'s KeysManager \<Rightarrow> 's Action \<Rightarrow> 's Sys \<Rightarrow> 's Sys option" where
  "perform m act s =
     (case act of
        Step i a \<Rightarrow> callStep m i a s
      | Other f \<Rightarrow> Some (s\<lparr>state := f (state s)\<rparr>))"

text \<open>Running a schedule; \<open>None\<close> when it asks a call to move that cannot.\<close>

fun run :: "'s KeysManager \<Rightarrow> 's Action list \<Rightarrow> 's Sys \<Rightarrow> 's Sys option" where
  "run m [] s = Some s"
| "run m (act # acts) s =
     (case perform m act s of None \<Rightarrow> None | Some s' \<Rightarrow> run m acts s')"

definition noKeys :: KeysInfo where
  "noKeys = \<lparr>session = [], wgPublicKey = [], wgPrivateKey = [], wgLocalIP = [],
             generatedTime = zeroTime, updateInterval = 0\<rparr>"

text \<open>The start: the mutex is free and one call per flag is about to begin.\<close>

definition initSys :: "bool list \<Rightarrow> 's \<Rightarrow> 's Sys" where
  "initSys flags st =
     \<lparr>mutexLocked = False, state = st,
      calls = map (\<lambda>b. \<lparr>pc = PcStart, onlyUpdateIfNecessary = b, captured = noKeys\<rparr>) flags,
      history = []\<rparr>"

text \<open>
  One call alone, with the answers of a \<open>CallEnv\<close>: the others act where the call is
  blocked (waiting for the mutex, inside the key generation, inside the issuance call).
  The schedule is cut short where the call returns.
\<close>

definition answersOf :: "'s CallEnv \<Rightarrow> Time \<Rightarrow> Answers" where
  "answersOf env now =
     \<lparr>clock = now, keygenResult = wireguard_GenerateKeys env, keysetResult = api_WireGuardKeySet env\<rparr>"

definition scheduleOf :: "'s CallEnv \<Rightarrow> 's Action list" where
  "scheduleOf env =
     [Step 0 (answersOf env (nowUnlocked env)),
      Other (whileLockWait env),
      Step 0 (answersOf env (nowLocked env)),
      Step 0 (answersOf env (nowLocked env)),
      Other (whileKeyGen env),
      Step 0 (answersOf env (nowLocked env)),
      Other (whileKeySet env),
      Step 0 (answersOf env (nowSave env)),
      Step 0 (answersOf env (nowSave env))]"

fun untilReturned :: "'s KeysManager \<Rightarrow> 's Action list \<Rightarrow> 's Sys \<Rightarrow> 's Sys option" where
  "untilReturned m [] s = Some s"
| "untilReturned m (act # acts) s =
     (case pc (calls s ! 0) of
        PcReturned _ \<Rightarrow> Some s
      | _ \<Rightarrow> (case perform m act s of None \<Rightarrow> None | Some s' \<Rightarrow> untilReturned m acts s'))"

section \<open>The preferences (service/preferences/preferences.go)\<close>

definition DefaultWGKeysInterval :: Duration where
  "DefaultWGKeysInterval = Hour * 24 * 7"

text \<open>
  The declaration of \<open>SessionStatus\<close> is not among the sources; the fields are those that
  preferences.go reads and writes. The field \<open>Session\<close> of \<open>SessionStatus\<close> is
  \<open>Session_token\<close> here, since \<open>Preferences\<close> has a field of the same name.
\<close>

record SessionStatus =
  AccountID :: string
  Session_token :: string
  OpenVPNUser :: string
  OpenVPNPass :: string
  WGPublicKey :: string
  WGPrivateKey :: string
  WGLocalIP :: string
  WGKeyGenerated :: Time
  WGKeysRegenInerval :: Duration

record Preferences =
  IsLogging :: bool
  IsFwPersistant :: bool
  IsFwAllowLAN :: bool
  IsFwAllowLANMulticast :: bool
  IsStopOnClientDisconnect :: bool
  IsObfsproxy :: bool
  Session :: SessionStatus

record PreferencesOld =
  IsLogging_old :: string
  IsFwPersistant_old :: string
  IsFwAllowLAN_old :: string
  IsFwAllowLANMulticast_old :: string
  IsStopOnClientDisconnect_old :: string
  IsObfsproxy_old :: string

text \<open>
  The file system and the JSON codec: the result of reading the settings file; decoding
  into an existing \<open>Preferences\<close> (the error and the value left in the target, which the
  decoder may have changed in part); decoding into a fresh \<open>PreferencesOld\<close>; encoding;
  the result of writing the settings file.
\<close>

record PrefsEnv =
  ioutil_ReadFile :: "error + string"
  json_Unmarshal :: "string \<Rightarrow> Preferences \<Rightarrow> error option \<times> Preferences"
  json_UnmarshalOld :: "string \<Rightarrow> error + PreferencesOld"
  json_Marshal :: "Preferences \<Rightarrow> error + string"
  ioutil_WriteFile :: "string \<Rightarrow> error option"

fun strings_Contains :: "string \<Rightarrow> string \<Rightarrow> bool" where
  "strings_Contains [] substr = (substr = [])"
| "strings_Contains (c # cs) substr = (prefix substr (c # cs) \<or> strings_Contains cs substr)"

text \<open>\<open>SavePreferences\<close>: the error and the data handed to \<open>ioutil.WriteFile\<close>.\<close>

definition SavePreferences :: "PrefsEnv \<Rightarrow> Preferences \<Rightarrow> error option \<times> string list" where
  "SavePreferences env p =
     (case json_Marshal env p of
        Inl e \<Rightarrow> (Some (ErrSaveMarshal e), [])
      | Inr data \<Rightarrow> (ioutil_WriteFile env data, [data]))"

definition LoadPreferences :: "PrefsEnv \<Rightarrow> Preferences \<Rightarrow> error option \<times> Preferences \<times> string list" where
  "LoadPreferences env p =
     (case ioutil_ReadFile env of
        Inl e \<Rightarrow> (Some (ErrReadPreferences e), p, [])
      | Inr data \<Rightarrow>
          if strings_Contains data ''\"firewall_is_persistent\"'' then
            (case json_UnmarshalOld env data of
               Inl e \<Rightarrow> (Some e, p, [])
             | Inr oldStylePrefs \<Rightarrow>
                 (None,
                  p\<lparr>IsLogging := (IsLogging_old oldStylePrefs = ''1''),
                    IsFwPersistant := (IsFwPersistant_old oldStylePrefs = ''1''),
                    IsFwAllowLAN := (IsFwAllowLAN_old oldStylePrefs = ''1''),
                    IsFwAllowLANMulticast := (IsFwAllowLANMulticast_old oldStylePrefs = ''1''),
                    IsStopOnClientDisconnect := (IsStopOnClientDisconnect_old oldStylePrefs = ''1''),
                    IsObfsproxy := (IsObfsproxy_old oldStylePrefs = ''1'')\<rparr>,
                  []))
          else
            (case json_Unmarshal env data p of
               (Some e, p1) \<Rightarrow> (Some e, p1, [])
             | (None, p1) \<Rightarrow>
                 (let p2 = (if length (WGPublicKey (Session p1)) = 0
                               \<or> length (WGPrivateKey (Session p1)) = 0
                               \<or> length (WGLocalIP (Session p1)) = 0
                            then p1\<lparr>Session := (Session p1)\<lparr>WGKeyGenerated := zeroTime\<rparr>\<rparr>
                            else p1)
                  in if WGKeysRegenInerval (Session p2) \<le> 0
                     then (let p3 = p2\<lparr>Session := (Session p2)\<lparr>WGKeysRegenInerval := DefaultWGKeysInterval\<rparr>\<rparr>
                           in (None, p3, snd (SavePreferences env p3)))
                     else (None, p2, []))))"


text \<open>
  \<open>setSession\<close>. \<open>strings.TrimSpace\<close> and the method \<open>updateWgCredentials\<close> of
  \<open>SessionStatus\<close> are the first two arguments.
\<close>

definition setSession ::
  "(string \<Rightarrow> string) \<Rightarrow> (string \<Rightarrow> string \<Rightarrow> string \<Rightarrow> SessionStatus \<Rightarrow> SessionStatus)
   \<Rightarrow> Preferences \<Rightarrow> string \<Rightarrow> string \<Rightarrow> string \<Rightarrow> string \<Rightarrow> string \<Rightarrow> string \<Rightarrow> string
   \<Rightarrow> Preferences" where
  "setSession strings_TrimSpace updateWg p accountID session' vpnUser vpnPass
              wgPublicKey' wgPrivateKey' wgLocalIP' =
     (let s = \<lparr>AccountID = strings_TrimSpace accountID,
               Session_token = strings_TrimSpace session',
               OpenVPNUser = strings_TrimSpace vpnUser,
               OpenVPNPass = strings_TrimSpace vpnPass,
               WGPublicKey = [], WGPrivateKey = [], WGLocalIP = [],
               WGKeyGenerated = zeroTime,
               WGKeysRegenInerval = WGKeysRegenInerval (Session p)\<rparr>;
          s1 = (if WGKeysRegenInerval s \<le> 0
                then s\<lparr>WGKeysRegenInerval := DefaultWGKeysInterval\<rparr> else s)
      in p\<lparr>Session := updateWg wgPublicKey' wgPrivateKey' wgLocalIP' s1\<rparr>)"

definition SetSession ::
  "PrefsEnv \<Rightarrow> (string \<Rightarrow> string) \<Rightarrow> (string \<Rightarrow> string \<Rightarrow> string \<Rightarrow> SessionStatus \<Rightarrow> SessionStatus)
   \<Rightarrow> Preferences \<Rightarrow> string \<Rightarrow> string \<Rightarrow> string \<Rightarrow> string \<Rightarrow> string \<Rightarrow> string \<Rightarrow> string
   \<Rightarrow> Preferences \<times> string list" where
  "SetSession env strings_TrimSpace updateWg p accountID session' vpnUser vpnPass
              wgPublicKey' wgPrivateKey' wgLocalIP' =
     (let p1 = setSession strings_TrimSpace updateWg p accountID session' vpnUser vpnPass
                 wgPublicKey' wgPrivateKey' wgLocalIP'
      in (p1, snd (SavePreferences env p1)))"

section \<open>Example values\<close>

definition demoKeys :: KeysInfo where
  "demoKeys = \<lparr>session = ''s1'', wgPublicKey = ''oldpub'', wgPrivateKey = ''oldpriv'',
               wgLocalIP = ''10.0.0.2'', generatedTime = 1000,
               updateInterval = DefaultWGKeysInterval\<rparr>"

definition demoStore :: Store where
  "demoStore = \<lparr>keys = demoKeys, isConnected = True\<rparr>"

definition demoManager :: "Store KeysManager" where
  "demoManager = \<lparr>m_service = Some specReceiver\<rparr>"

definition demoEnv :: "Time \<Rightarrow> Store CallEnv" where
  "demoEnv now =
     \<lparr>nowUnlocked = now, whileLockWait = (\<lambda>s. s), nowLocked = now,
      wireguard_GenerateKeys = Inr (''newpub'', ''newpriv''), whileKeyGen = (\<lambda>s. s),
      api_WireGuardKeySet = (\<lambda>s p old. Inr ''10.0.0.3''), whileKeySet = (\<lambda>s. s),
      nowSave = now\<rparr>"


definition demoLoopEnv :: "Time \<Rightarrow> error + (string \<times> string) \<Rightarrow> Store LoopEnv" where
  "demoLoopEnv now kg =
     \<lparr>nowUntil = now, nowFailed = now, nowBefore = now, selected = TimerFired,
      duringWait = (\<lambda>s. s), callEnv = (demoEnv now)\<lparr>wireguard_GenerateKeys := kg\<rparr>\<rparr>"

definition demoSession :: SessionStatus where
  "demoSession = \<lparr>AccountID = ''a1'', Session_token = ''s1'', OpenVPNUser = ''u'', OpenVPNPass = ''p'',
                  WGPublicKey = ''pub'', WGPrivateKey = [], WGLocalIP = ''10.0.0.2'',
                  WGKeyGenerated = 5000, WGKeysRegenInerval = 0\<rparr>"

definition demoPrefs :: Preferences where
  "demoPrefs = \<lparr>IsLogging = False, IsFwPersistant = False, IsFwAllowLAN = False,
                IsFwAllowLANMulticast = False, IsStopOnClientDisconnect = False,
                IsObfsproxy = False, Session = demoSession\<lparr>WGKeyGenerated := zeroTime\<rparr>\<rparr>"

definition demoPrefsEnv :: PrefsEnv where
  "demoPrefsEnv =
     \<lparr>ioutil_ReadFile = Inr ''{\"IsLogging\":true}'',
      json_Unmarshal = (\<lambda>data p. (None, p\<lparr>IsLogging := True, Session := demoSession\<rparr>)),
      json_UnmarshalOld = (\<lambda>data. Inl (ErrExternal ''unexpected'')),
      json_Marshal = (\<lambda>p. Inr ''{}''),
      ioutil_WriteFile = (\<lambda>data. None)\<rparr>"

definition demoAnswers :: "Time \<Rightarrow> Answers" where
  "demoAnswers now =
     \<lparr>clock = now, keygenResult = Inr (''newpub'', ''newpriv''),
      keysetResult = (\<lambda>s p old. Inr ''10.0.0.3'')\<rparr>"

definition demoSchedule :: "Store Action list" where
  "demoSchedule =
     [Step 0 (demoAnswers 700000000000000), Step 1 (demoAnswers 700000000000000),
      Step 0 (demoAnswers 700000000000000), Step 0 (demoAnswers 700000000000000),
      Step 0 (demoAnswers 700000000000000), Step 0 (demoAnswers 700000000000000),
      Step 0 (demoAnswers 700000000000001),
      Step 1 (demoAnswers 700000000000002), Step 1 (demoAnswers 700000000000003)]"

definition demoMid :: "Store Sys" where
  "demoMid =
     \<lparr>mutexLocked = True, state = demoStore,
      calls = [\<lparr>pc = PcSave ''newpub'' ''newpriv'' ''10.0.0.3'', onlyUpdateIfNecessary = True,
                captured = demoKeys\<rparr>,
               \<lparr>pc = PcLock, onlyUpdateIfNecessary = True, captured = demoKeys\<rparr>],
      history = [(0, EvMutexLock), (0, EvGenerateKeys),
                 (0, EvWireGuardKeySet ''s1'' ''newpub'' ''oldpub'')]\<rparr>"

definition demoRotated :: KeysInfo where
  "demoRotated = demoKeys\<lparr>wgPublicKey := ''newpub'', wgPrivateKey := ''newpriv'',
                          wgLocalIP := ''10.0.0.3'', generatedTime := 700000000000001\<rparr>"

definition demoFinal :: "Store Sys" where
  "demoFinal =
     \<lparr>mutexLocked = False, state = demoStore\<lparr>keys := demoRotated\<rparr>,
      calls = [\<lparr>pc = PcReturned None, onlyUpdateIfNecessary = True, captured = demoKeys\<rparr>,
               \<lparr>pc = PcReturned None, onlyUpdateIfNecessary = True, captured = demoRotated\<rparr>],
      history = [(0, EvMutexLock), (0, EvGenerateKeys),
                 (0, EvWireGuardKeySet ''s1'' ''newpub'' ''oldpub''),
                 (0, EvSaveNewKeys ''newpub'' ''newpriv'' ''10.0.0.3''), (0, EvMutexUnlock),
                 (1, EvMutexLock), (1, EvMutexUnlock)]\<rparr>"

section \<open>The rotation attempt\<close>

lemma isNecessaryUpdate_forced: "isNecessaryUpdate False k now = (True, None)"
  by (simp add: isNecessaryUpdate_def)

lemma isNecessaryUpdate_due:
  "0 < updateInterval k \<Longrightarrow> wgPublicKey k \<noteq> [] \<Longrightarrow>
   isNecessaryUpdate True k now =
     (if now < generatedTime k + updateInterval k then (False, None) else (True, None))"
  by (simp add: isNecessaryUpdate_def Time_After_def Time_Add_def)

lemma generateKeys_not_due:
  "m_service m = Some svc \<Longrightarrow>
   isNecessaryUpdate f (WireGuardGetKeys svc st) (nowUnlocked env) = (False, e) \<Longrightarrow>
   generateKeys f m env st = \<lparr>retErr = e, world = st, trace = []\<rparr>"
  by (simp add: generateKeys_def)

lemma generateKeys_due_keygen:
  "m_service m = Some svc \<Longrightarrow>
   isNecessaryUpdate f (WireGuardGetKeys svc st) (nowUnlocked env) = (True, None) \<Longrightarrow>
   isNecessaryUpdate f (WireGuardGetKeys svc (whileLockWait env st)) (nowLocked env) = (True, None) \<Longrightarrow>
   keygenCalls (trace (generateKeys f m env st)) = 1"
  by (simp add: generateKeys_def Let_def keygenCalls_def StartKeysRotation_def
           split: sum.splits prod.splits)

text \<open>
  Claim C1. With a receiver, an interval above 0 and a non-empty active public key that
  nobody changes while the call waits for the mutex, and a clock that does not run
  backwards between the two checks: \<open>UpdateKeysIfNecessary\<close> generates no key, makes no
  issuance call, saves nothing and returns no error if and only if the clock at the
  unlocked check is before \<open>generatedTime + updateInterval\<close>; then the receiver's
  state is left as it was. At \<open>now = generatedTime + updateInterval\<close> the rotation is
  due and the call reaches the key generation.
\<close>

theorem ensureFresh_noop_iff_not_due:
  assumes "m_service m = Some svc"
    and "k = WireGuardGetKeys svc st"
    and "0 < updateInterval k"
    and "wgPublicKey k \<noteq> []"
    and "WireGuardGetKeys svc (whileLockWait env st) = k"
    and "nowUnlocked env \<le> nowLocked env"
  shows "((keygenCalls (trace (UpdateKeysIfNecessary m env st)) = 0
           \<and> issuanceCalls (trace (UpdateKeysIfNecessary m env st)) = 0
           \<and> saveCalls (trace (UpdateKeysIfNecessary m env st)) = 0
           \<and> retErr (UpdateKeysIfNecessary m env st) = None)
          \<longleftrightarrow> nowUnlocked env < generatedTime k + updateInterval k)
       \<and> (nowUnlocked env < generatedTime k + updateInterval k
            \<longrightarrow> world (UpdateKeysIfNecessary m env st) = st)
       \<and> (nowUnlocked env = generatedTime k + updateInterval k
            \<longrightarrow> keygenCalls (trace (UpdateKeysIfNecessary m env st)) = 1)"
proof (cases "nowUnlocked env < generatedTime k + updateInterval k")
  case True
  with assms have "isNecessaryUpdate True (WireGuardGetKeys svc st) (nowUnlocked env) = (False, None)"
    by (simp add: isNecessaryUpdate_due)
  with assms(1) have "UpdateKeysIfNecessary m env st = \<lparr>retErr = None, world = st, trace = []\<rparr>"
    unfolding UpdateKeysIfNecessary_def by (rule generateKeys_not_due)
  with True show ?thesis
    by (simp add: keygenCalls_def issuanceCalls_def saveCalls_def)
next
  case False
  with assms have d1: "isNecessaryUpdate True (WireGuardGetKeys svc st) (nowUnlocked env) = (True, None)"
    by (simp add: isNecessaryUpdate_due)
  from False assms have "\<not> nowLocked env < generatedTime k + updateInterval k" by simp
  with assms have d2: "isNecessaryUpdate True (WireGuardGetKeys svc (whileLockWait env st)) (nowLocked env) = (True, None)"
    by (simp add: isNecessaryUpdate_due)
  have "keygenCalls (trace (UpdateKeysIfNecessary m env st)) = 1"
    unfolding UpdateKeysIfNecessary_def using assms(1) d1 d2 by (rule generateKeys_due_keygen)
  with False show ?thesis by simp
qed

lemmas demo_defs = demoKeys_def demoStore_def demoManager_def demoEnv_def specReceiver_def
  DefaultWGKeysInterval_def Hour_def Second_def

theorem ensureFresh_noop_iff_not_due_witness:
  "m_service demoManager = Some specReceiver
   \<and> 0 < updateInterval (WireGuardGetKeys specReceiver demoStore)
   \<and> wgPublicKey (WireGuardGetKeys specReceiver demoStore) \<noteq> []
   \<and> nowUnlocked (demoEnv (1000 + DefaultWGKeysInterval)) = generatedTime demoKeys + updateInterval demoKeys
   \<and> keygenCalls (trace (UpdateKeysIfNecessary demoManager (demoEnv (1000 + DefaultWGKeysInterval)) demoStore)) = 1"
  using ensureFresh_noop_iff_not_due [of demoManager specReceiver "WireGuardGetKeys specReceiver demoStore" demoStore
              "demoEnv (1000 + DefaultWGKeysInterval)"]
  by (simp add: demo_defs)

lemma generateKeys_cases [case_names NotInitialized Skipped SkippedLocked KeyGenFailed KeySetFailed Saved]:
  fixes m :: "'s KeysManager"
  obtains
    "m_service m = None"
    "generateKeys f m env st = \<lparr>retErr = Some ErrNotInitialized, world = st, trace = []\<rparr>"
  | svc h e where
    "m_service m = Some svc"
    "isNecessaryUpdate f (WireGuardGetKeys svc st) (nowUnlocked env) = (h, e)"
    "h = False \<or> e \<noteq> None"
    "generateKeys f m env st = \<lparr>retErr = e, world = st, trace = []\<rparr>"
  | svc h e where
    "m_service m = Some svc"
    "isNecessaryUpdate f (WireGuardGetKeys svc st) (nowUnlocked env) = (True, None)"
    "isNecessaryUpdate f (WireGuardGetKeys svc (whileLockWait env st)) (nowLocked env) = (h, e)"
    "h = False \<or> e \<noteq> None"
    "generateKeys f m env st =
       \<lparr>retErr = e, world = whileLockWait env st, trace = [EvMutexLock, EvMutexUnlock]\<rparr>"
  | svc e where
    "m_service m = Some svc"
    "isNecessaryUpdate f (WireGuardGetKeys svc st) (nowUnlocked env) = (True, None)"
    "isNecessaryUpdate f (WireGuardGetKeys svc (whileLockWait env st)) (nowLocked env) = (True, None)"
    "wireguard_GenerateKeys env = Inl e"
    "generateKeys f m env st =
       \<lparr>retErr = Some e, world = whileKeyGen env (whileLockWait env st),
        trace = [EvMutexLock, EvGenerateKeys, EvMutexUnlock]\<rparr>"
  | svc pub priv old e where
    "m_service m = Some svc"
    "isNecessaryUpdate f (WireGuardGetKeys svc st) (nowUnlocked env) = (True, None)"
    "isNecessaryUpdate f (WireGuardGetKeys svc (whileLockWait env st)) (nowLocked env) = (True, None)"
    "wireguard_GenerateKeys env = Inr (pub, priv)"
    "old = (if \<not> Connected svc (whileKeyGen env (whileLockWait env st))
            then [] else wgPublicKey (WireGuardGetKeys svc (whileLockWait env st)))"
    "api_WireGuardKeySet env (session (WireGuardGetKeys svc (whileLockWait env st))) pub old = Inl e"
    "generateKeys f m env st =
       \<lparr>retErr = Some e, world = whileKeySet env (whileKeyGen env (whileLockWait env st)),
        trace = [EvMutexLock, EvGenerateKeys,
                 EvWireGuardKeySet (session (WireGuardGetKeys svc (whileLockWait env st))) pub old,
                 EvMutexUnlock]\<rparr>"
  | svc pub priv old localIP st' where
    "m_service m = Some svc"
    "isNecessaryUpdate f (WireGuardGetKeys svc st) (nowUnlocked env) = (True, None)"
    "isNecessaryUpdate f (WireGuardGetKeys svc (whileLockWait env st)) (nowLocked env) = (True, None)"
    "wireguard_GenerateKeys env = Inr (pub, priv)"
    "old = (if \<not> Connected svc (whileKeyGen env (whileLockWait env st))
            then [] else wgPublicKey (WireGuardGetKeys svc (whileLockWait env st)))"
    "api_WireGuardKeySet env (session (WireGuardGetKeys svc (whileLockWait env st))) pub old = Inr localIP"
    "st' = WireGuardSaveNewKeys svc pub priv localIP (nowSave env)
             (whileKeySet env (whileKeyGen env (whileLockWait env st)))"
    "generateKeys f m env st =
       \<lparr>retErr = None, world = st',
        trace = [EvMutexLock, EvGenerateKeys,
                 EvWireGuardKeySet (session (WireGuardGetKeys svc (whileLockWait env st))) pub old,
                 EvSaveNewKeys pub priv localIP]
                @ (if wgPublicKey (WireGuardGetKeys svc (whileLockWait env st)) = []
                   then snd (StartKeysRotation m st') else [])
                @ [EvMutexUnlock]\<rparr>"
proof (cases "m_service m")
  case None
  then show ?thesis using that(1) by (simp add: generateKeys_def)
next
  case (Some svc)
  obtain h e where c1: "isNecessaryUpdate f (WireGuardGetKeys svc st) (nowUnlocked env) = (h, e)"
    by (cases "isNecessaryUpdate f (WireGuardGetKeys svc st) (nowUnlocked env)")
  show ?thesis
  proof (cases "h = False \<or> e \<noteq> None")
    case True
    with Some c1 show ?thesis using that(2) [of svc h e] by (simp add: generateKeys_def)
  next
    case False
    then have c1': "isNecessaryUpdate f (WireGuardGetKeys svc st) (nowUnlocked env) = (True, None)"
      using c1 by simp
    obtain h2 e2 where
      c2: "isNecessaryUpdate f (WireGuardGetKeys svc (whileLockWait env st)) (nowLocked env) = (h2, e2)"
      by (cases "isNecessaryUpdate f (WireGuardGetKeys svc (whileLockWait env st)) (nowLocked env)")
    show ?thesis
    proof (cases "h2 = False \<or> e2 \<noteq> None")
      case True
      with Some c1' c2 show ?thesis using that(3) [of svc h2 e2]
        by (simp add: generateKeys_def Let_def)
    next
      case False
      then have c2': "isNecessaryUpdate f (WireGuardGetKeys svc (whileLockWait env st)) (nowLocked env) = (True, None)"
        using c2 by simp
      show ?thesis
      proof (cases "wireguard_GenerateKeys env")
        case (Inl e)
        with Some c1' c2' show ?thesis using that(4) [of svc e]
          by (simp add: generateKeys_def Let_def)
      next
        case (Inr kp)
        obtain pub priv where kp: "kp = (pub, priv)" by (cases kp)
        define old where "old = (if \<not> Connected svc (whileKeyGen env (whileLockWait env st))
            then [] else wgPublicKey (WireGuardGetKeys svc (whileLockWait env st)))"
        show ?thesis
        proof (cases "api_WireGuardKeySet env (session (WireGuardGetKeys svc (whileLockWait env st))) pub old")
          case (Inl e)
          with Some c1' c2' Inr kp old_def show ?thesis using that(5) [of svc pub priv old e]
            by (simp add: generateKeys_def Let_def)
        next
          case ip: (Inr localIP)
          with Some c1' c2' Inr kp old_def show ?thesis
            using that(6) [of svc pub priv old localIP]
            by (simp add: generateKeys_def Let_def)
        qed
      qed
    qed
  qed
qed

lemma StartKeysRotation_events:
  "snd (StartKeysRotation m st) = [] \<or> snd (StartKeysRotation m st) = [EvStopKeysRotation]
   \<or> snd (StartKeysRotation m st) = [EvStopKeysRotation, EvGoRotationLoop]"
  by (simp add: StartKeysRotation_def Let_def split: option.splits)

lemma StartKeysRotation_no_calls:
  "filter isSave (snd (StartKeysRotation m st)) = []"
  "filter isKeySet (snd (StartKeysRotation m st)) = []"
  "filter (\<lambda>e. e = EvGenerateKeys) (snd (StartKeysRotation m st)) = []"
  using StartKeysRotation_events [of m st] by auto

lemma generateKeys_saveCalls:
  "saveCalls (trace (generateKeys f m env st)) =
     (if retErr (generateKeys f m env st) = None \<and> keygenCalls (trace (generateKeys f m env st)) = 1
      then 1 else 0)"
  by (cases rule: generateKeys_cases [of m f env st])
     (auto simp: saveCalls_def keygenCalls_def StartKeysRotation_no_calls)

lemma generateKeys_world_nosave:
  "saveCalls (trace (generateKeys f m env st)) = 0 \<Longrightarrow>
   world (generateKeys f m env st)
     \<in> {st, whileLockWait env st, whileKeyGen env (whileLockWait env st),
         whileKeySet env (whileKeyGen env (whileLockWait env st))}"
  by (cases rule: generateKeys_cases [of m f env st])
     (auto simp: saveCalls_def)

lemma generateKeys_world_saved:
  "saveCalls (trace (generateKeys f m env st)) \<noteq> 0 \<Longrightarrow>
   \<exists>svc pub priv ip. m_service m = Some svc \<and> wireguard_GenerateKeys env = Inr (pub, priv) \<and>
     world (generateKeys f m env st) =
        WireGuardSaveNewKeys svc pub priv ip (nowSave env)
           (whileKeySet env (whileKeyGen env (whileLockWait env st)))"
  by (cases rule: generateKeys_cases [of m f env st])
     (auto simp: saveCalls_def)

lemma generateKeys_success:
  fixes m :: "'s KeysManager"
  assumes "retErr (generateKeys f m env st) = None"
    and "keygenCalls (trace (generateKeys f m env st)) = 1"
  shows "\<exists>svc pub priv localIP. m_service m = Some svc
       \<and> wireguard_GenerateKeys env = Inr (pub, priv)
       \<and> api_WireGuardKeySet env (session (WireGuardGetKeys svc (whileLockWait env st))) pub
            (if \<not> Connected svc (whileKeyGen env (whileLockWait env st))
             then [] else wgPublicKey (WireGuardGetKeys svc (whileLockWait env st))) = Inr localIP
       \<and> filter isSave (trace (generateKeys f m env st)) = [EvSaveNewKeys pub priv localIP]
       \<and> world (generateKeys f m env st) =
            WireGuardSaveNewKeys svc pub priv localIP (nowSave env)
              (whileKeySet env (whileKeyGen env (whileLockWait env st)))"
proof (cases rule: generateKeys_cases [of m f env st])
  case NotInitialized
  with assms show ?thesis by simp
next
  case (Skipped svc h e)
  with assms show ?thesis by (simp add: keygenCalls_def)
next
  case (SkippedLocked svc h e)
  with assms show ?thesis by (simp add: keygenCalls_def)
next
  case (KeyGenFailed svc e)
  with assms show ?thesis by simp
next
  case (KeySetFailed svc pub priv old e)
  with assms show ?thesis by simp
next
  case (Saved svc pub priv old localIP st')
  have "filter isSave (trace (generateKeys f m env st)) = [EvSaveNewKeys pub priv localIP]"
    unfolding Saved(8) by (simp add: StartKeysRotation_no_calls)
  moreover have "world (generateKeys f m env st) =
            WireGuardSaveNewKeys svc pub priv localIP (nowSave env)
              (whileKeySet env (whileKeyGen env (whileLockWait env st)))"
    unfolding Saved(8) by (simp add: Saved(7))
  moreover have "api_WireGuardKeySet env (session (WireGuardGetKeys svc (whileLockWait env st))) pub
            (if \<not> Connected svc (whileKeyGen env (whileLockWait env st))
             then [] else wgPublicKey (WireGuardGetKeys svc (whileLockWait env st))) = Inr localIP"
    using Saved(5,6) by simp
  ultimately show ?thesis using Saved(1,4) by blast
qed

lemma generateKeys_keygen_failed:
  "wireguard_GenerateKeys env = Inl e \<Longrightarrow>
   saveCalls (trace (generateKeys f m env st)) = 0 \<and> issuanceCalls (trace (generateKeys f m env st)) = 0"
  by (cases rule: generateKeys_cases [of m f env st])
     (auto simp: saveCalls_def issuanceCalls_def)

lemma generateKeys_keyset_failed:
  "(\<And>s p old. \<exists>e. api_WireGuardKeySet env s p old = Inl e) \<Longrightarrow>
   saveCalls (trace (generateKeys f m env st)) = 0"
proof (cases rule: generateKeys_cases [of m f env st])
  case (Saved svc pub priv old localIP st')
  assume "\<And>s p old. \<exists>e. api_WireGuardKeySet env s p old = Inl e"
  from this [of "session (WireGuardGetKeys svc (whileLockWait env st))" pub old] Saved(6)
  show ?thesis by simp
qed (auto simp: saveCalls_def)

text \<open>
  Claim C4. \<open>WireGuardSaveNewKeys\<close> is called exactly once when the attempt succeeds (the
  call returns no error after generating a key) and not at all otherwise: not when the
  key generation fails, not when the issuance call fails, not on any error. When it is not
  called, the receiver's state at the end is the initial one up to what the other
  goroutines did to it at the three blocking points: the call itself changes it only
  through \<open>WireGuardSaveNewKeys\<close>. When the attempt succeeds, the one call of
  \<open>WireGuardSaveNewKeys\<close> has the generated public and private key and the address that
  the issuance call returned as its arguments, and the receiver's state at the end is the
  result of that call, at the clock of the save, on the state that the other goroutines
  left at the three blocking points.
\<close>

theorem save_once_on_success_only:
  "saveCalls (trace (generateKeys f m env st)) =
      (if retErr (generateKeys f m env st) = None
          \<and> keygenCalls (trace (generateKeys f m env st)) = 1 then 1 else 0)
   \<and> (wireguard_GenerateKeys env = Inl e \<longrightarrow> saveCalls (trace (generateKeys f m env st)) = 0)
   \<and> ((\<forall>s p old. \<exists>e. api_WireGuardKeySet env s p old = Inl e)
        \<longrightarrow> saveCalls (trace (generateKeys f m env st)) = 0)
   \<and> (retErr (generateKeys f m env st) \<noteq> None \<longrightarrow>
        saveCalls (trace (generateKeys f m env st)) = 0
        \<and> world (generateKeys f m env st)
            \<in> {st, whileLockWait env st, whileKeyGen env (whileLockWait env st),
                whileKeySet env (whileKeyGen env (whileLockWait env st))})
   \<and> (saveCalls (trace (generateKeys f m env st)) = 0 \<longrightarrow>
        world (generateKeys f m env st)
            \<in> {st, whileLockWait env st, whileKeyGen env (whileLockWait env st),
                whileKeySet env (whileKeyGen env (whileLockWait env st))})
   \<and> (retErr (generateKeys f m env st) = None
          \<and> keygenCalls (trace (generateKeys f m env st)) = 1 \<longrightarrow>
        (\<exists>svc pub priv localIP. m_service m = Some svc
           \<and> wireguard_GenerateKeys env = Inr (pub, priv)
           \<and> api_WireGuardKeySet env (session (WireGuardGetKeys svc (whileLockWait env st))) pub
                (if \<not> Connected svc (whileKeyGen env (whileLockWait env st))
                 then [] else wgPublicKey (WireGuardGetKeys svc (whileLockWait env st)))
                = Inr localIP
           \<and> filter isSave (trace (generateKeys f m env st)) = [EvSaveNewKeys pub priv localIP]
           \<and> world (generateKeys f m env st) =
                WireGuardSaveNewKeys svc pub priv localIP (nowSave env)
                  (whileKeySet env (whileKeyGen env (whileLockWait env st)))))"
proof -
  have a: "saveCalls (trace (generateKeys f m env st)) =
      (if retErr (generateKeys f m env st) = None
          \<and> keygenCalls (trace (generateKeys f m env st)) = 1 then 1 else 0)"
    by (rule generateKeys_saveCalls)
  have b: "wireguard_GenerateKeys env = Inl e \<longrightarrow> saveCalls (trace (generateKeys f m env st)) = 0"
    by (simp add: generateKeys_keygen_failed)
  have c: "(\<forall>s p old. \<exists>e. api_WireGuardKeySet env s p old = Inl e)
        \<longrightarrow> saveCalls (trace (generateKeys f m env st)) = 0"
    using generateKeys_keyset_failed [of env f m st] by blast
  have d: "saveCalls (trace (generateKeys f m env st)) = 0 \<longrightarrow>
        world (generateKeys f m env st)
            \<in> {st, whileLockWait env st, whileKeyGen env (whileLockWait env st),
                whileKeySet env (whileKeyGen env (whileLockWait env st))}"
    using generateKeys_world_nosave [of f m env st] by blast
  have e: "retErr (generateKeys f m env st) \<noteq> None \<longrightarrow>
        saveCalls (trace (generateKeys f m env st)) = 0
        \<and> world (generateKeys f m env st)
            \<in> {st, whileLockWait env st, whileKeyGen env (whileLockWait env st),
                whileKeySet env (whileKeyGen env (whileLockWait env st))}"
  proof
    assume "retErr (generateKeys f m env st) \<noteq> None"
    with a have "saveCalls (trace (generateKeys f m env st)) = 0" by simp
    with d show "saveCalls (trace (generateKeys f m env st)) = 0
        \<and> world (generateKeys f m env st)
            \<in> {st, whileLockWait env st, whileKeyGen env (whileLockWait env st),
                whileKeySet env (whileKeyGen env (whileLockWait env st))}" by blast
  qed
  have g: "retErr (generateKeys f m env st) = None
          \<and> keygenCalls (trace (generateKeys f m env st)) = 1 \<longrightarrow>
        (\<exists>svc pub priv localIP. m_service m = Some svc
           \<and> wireguard_GenerateKeys env = Inr (pub, priv)
           \<and> api_WireGuardKeySet env (session (WireGuardGetKeys svc (whileLockWait env st))) pub
                (if \<not> Connected svc (whileKeyGen env (whileLockWait env st))
                 then [] else wgPublicKey (WireGuardGetKeys svc (whileLockWait env st)))
                = Inr localIP
           \<and> filter isSave (trace (generateKeys f m env st)) = [EvSaveNewKeys pub priv localIP]
           \<and> world (generateKeys f m env st) =
                WireGuardSaveNewKeys svc pub priv localIP (nowSave env)
                  (whileKeySet env (whileKeyGen env (whileLockWait env st))))"
    using generateKeys_success [of f m env st] by blast
  show ?thesis by (intro conjI a b c e d g)
qed

theorem save_once_on_success_only_witness:
  "wireguard_GenerateKeys ((demoEnv 2000)\<lparr>wireguard_GenerateKeys := Inl (ErrExternal ''wg'')\<rparr>)
      = Inl (ErrExternal ''wg'')
   \<and> retErr (generateKeys False demoManager
         ((demoEnv 2000)\<lparr>wireguard_GenerateKeys := Inl (ErrExternal ''wg'')\<rparr>) demoStore) \<noteq> None
   \<and> saveCalls (trace (generateKeys False demoManager
         ((demoEnv 2000)\<lparr>wireguard_GenerateKeys := Inl (ErrExternal ''wg'')\<rparr>) demoStore)) = 0
   \<and> world (generateKeys False demoManager
         ((demoEnv 2000)\<lparr>wireguard_GenerateKeys := Inl (ErrExternal ''wg'')\<rparr>) demoStore) = demoStore
   \<and> retErr (generateKeys False demoManager (demoEnv 2000) demoStore) = None
   \<and> keygenCalls (trace (generateKeys False demoManager (demoEnv 2000) demoStore)) = 1
   \<and> saveCalls (trace (generateKeys False demoManager (demoEnv 2000) demoStore)) = 1
   \<and> filter isSave (trace (generateKeys False demoManager (demoEnv 2000) demoStore))
        = [EvSaveNewKeys ''newpub'' ''newpriv'' ''10.0.0.3'']
   \<and> world (generateKeys False demoManager (demoEnv 2000) demoStore)
        = WireGuardSaveNewKeys specReceiver ''newpub'' ''newpriv'' ''10.0.0.3'' 2000 demoStore
   \<and> keys (world (generateKeys False demoManager (demoEnv 2000) demoStore))
        = demoKeys\<lparr>wgPublicKey := ''newpub'', wgPrivateKey := ''newpriv'',
                    wgLocalIP := ''10.0.0.3'', generatedTime := 2000\<rparr>"
  using save_once_on_success_only [of False demoManager
          "(demoEnv 2000)\<lparr>wireguard_GenerateKeys := Inl (ErrExternal ''wg'')\<rparr>" demoStore
          "ErrExternal ''wg''"]
        save_once_on_success_only [of False demoManager "demoEnv 2000" demoStore "ErrExternal ''wg''"]
  by (simp add: demo_defs generateKeys_def isNecessaryUpdate_def Let_def keygenCalls_def)

lemma StartKeysRotation_set:
  "set (snd (StartKeysRotation m st)) \<subseteq> {EvStopKeysRotation, EvGoRotationLoop}"
  using StartKeysRotation_events [of m st] by auto

lemma StartKeysRotation_no_keyset [simp]:
  "EvWireGuardKeySet s p old \<notin> set (snd (StartKeysRotation m st))"
  using StartKeysRotation_set [of m st] by auto



text \<open>
  Claim C6. For a forced rotation (\<open>GenerateKeys\<close>) the due check \<open>isNecessaryUpdate\<close> is
  true without an error for every key state and every clock reading, whatever the
  interval, the key and the generation time are; on a manager with a receiver the call
  always reaches the key generation.
\<close>

theorem forced_rotation_always_due:
  "isNecessaryUpdate False k now = (True, None)
   \<and> (m_service m = Some svc \<longrightarrow>
        keygenCalls (trace (GenerateKeys m env st)) = 1
        \<and> EvGenerateKeys \<in> set (trace (GenerateKeys m env st)))"
proof -
  have a: "isNecessaryUpdate False k now = (True, None)" by (rule isNecessaryUpdate_forced)
  have b: "m_service m = Some svc \<longrightarrow>
        keygenCalls (trace (GenerateKeys m env st)) = 1
        \<and> EvGenerateKeys \<in> set (trace (GenerateKeys m env st))"
    unfolding GenerateKeys_def
    by (cases rule: generateKeys_cases [of m False env st])
       (auto simp: isNecessaryUpdate_forced keygenCalls_def StartKeysRotation_no_calls)
  show ?thesis by (intro conjI a b)
qed

theorem forced_rotation_always_due_witness:
  "m_service demoManager = Some specReceiver
   \<and> updateInterval (keys (demoStore\<lparr>keys := noKeys\<rparr>)) = 0
   \<and> wgPublicKey (keys (demoStore\<lparr>keys := noKeys\<rparr>)) = []
   \<and> keygenCalls (trace (GenerateKeys demoManager (demoEnv 0) (demoStore\<lparr>keys := noKeys\<rparr>))) = 1"
  using forced_rotation_always_due [of noKeys 0 demoManager specReceiver "demoEnv 0" "demoStore\<lparr>keys := noKeys\<rparr>"]
  by (simp add: demo_defs noKeys_def)

text \<open>
  Claim C7. With a receiver whose saved keys are what \<open>WireGuardGetKeys\<close> returns
  afterwards, an interval above 0 and no active public key: \<open>StartKeysRotation\<close> returns
  no error and starts no goroutine. A forced rotation that then succeeds with a non-empty
  generated key (nobody else changing the state meanwhile) starts the loop once, as the
  old public key it read was empty. Any later attempt that reads a non-empty public key
  under the mutex starts no loop.
\<close>

theorem first_key_starts_rotation_loop:
  fixes m :: "'s KeysManager"
  assumes svc: "m_service m = Some svc"
    and save: "\<And>pub priv ip now s.
        WireGuardGetKeys svc (WireGuardSaveNewKeys svc pub priv ip now s) =
          (WireGuardGetKeys svc s)\<lparr>wgPublicKey := pub, wgPrivateKey := priv,
                                     wgLocalIP := ip, generatedTime := now\<rparr>"
    and interval: "0 < updateInterval (WireGuardGetKeys svc st)"
    and nokey: "wgPublicKey (WireGuardGetKeys svc st) = []"
    and quiet: "whileLockWait env st = st" "whileKeyGen env st = st" "whileKeySet env st = st"
    and keygen: "wireguard_GenerateKeys env = Inr (pub, priv)" "pub \<noteq> []"
    and keyset: "api_WireGuardKeySet env (session (WireGuardGetKeys svc st)) pub [] = Inr ip"
  shows "StartKeysRotation m st = (None, [EvStopKeysRotation])
       \<and> retErr (GenerateKeys m env st) = None
       \<and> loopStarts (trace (GenerateKeys m env st)) = 1
       \<and> wgPublicKey (WireGuardGetKeys svc (world (GenerateKeys m env st))) \<noteq> []
       \<and> (\<forall>f (env' :: 's CallEnv) st'. wgPublicKey (WireGuardGetKeys svc (whileLockWait env' st')) \<noteq> []
             \<longrightarrow> loopStarts (trace (generateKeys f m env' st')) = 0)"
proof -
  have a: "StartKeysRotation m st = (None, [EvStopKeysRotation])"
    using svc interval nokey by (simp add: StartKeysRotation_def)
  have r: "generateKeys False m env st =
       \<lparr>retErr = None, world = WireGuardSaveNewKeys svc pub priv ip (nowSave env) st,
        trace = [EvMutexLock, EvGenerateKeys,
                 EvWireGuardKeySet (session (WireGuardGetKeys svc st)) pub [],
                 EvSaveNewKeys pub priv ip, EvStopKeysRotation, EvGoRotationLoop, EvMutexUnlock]\<rparr>"
    using svc interval nokey quiet keygen keyset
    by (simp add: generateKeys_def isNecessaryUpdate_forced Let_def StartKeysRotation_def save)
  have b: "retErr (GenerateKeys m env st) = None" by (simp add: GenerateKeys_def r)
  have c: "loopStarts (trace (GenerateKeys m env st)) = 1"
    by (simp add: GenerateKeys_def r loopStarts_def)
  have d: "wgPublicKey (WireGuardGetKeys svc (world (GenerateKeys m env st))) \<noteq> []"
    using keygen(2) by (simp add: GenerateKeys_def r save)
  have e: "\<forall>f (env' :: 's CallEnv) st'. wgPublicKey (WireGuardGetKeys svc (whileLockWait env' st')) \<noteq> []
             \<longrightarrow> loopStarts (trace (generateKeys f m env' st')) = 0"
  proof (intro allI impI)
    fix f and env' :: "'s CallEnv" and st'
    assume k: "wgPublicKey (WireGuardGetKeys svc (whileLockWait env' st')) \<noteq> []"
    show "loopStarts (trace (generateKeys f m env' st')) = 0"
      using svc k by (cases rule: generateKeys_cases [of m f env' st']) (auto simp: loopStarts_def)
  qed
  show ?thesis by (intro conjI a b c d e)
qed

theorem first_key_starts_rotation_loop_witness:
  "m_service demoManager = Some specReceiver
   \<and> 0 < updateInterval (WireGuardGetKeys specReceiver (demoStore\<lparr>keys := demoKeys\<lparr>wgPublicKey := []\<rparr>\<rparr>))
   \<and> wgPublicKey (WireGuardGetKeys specReceiver (demoStore\<lparr>keys := demoKeys\<lparr>wgPublicKey := []\<rparr>\<rparr>)) = []
   \<and> StartKeysRotation demoManager (demoStore\<lparr>keys := demoKeys\<lparr>wgPublicKey := []\<rparr>\<rparr>)
        = (None, [EvStopKeysRotation])
   \<and> loopStarts (trace (GenerateKeys demoManager (demoEnv 2000)
                           (demoStore\<lparr>keys := demoKeys\<lparr>wgPublicKey := []\<rparr>\<rparr>))) = 1
   \<and> loopStarts (trace (generateKeys False demoManager (demoEnv 3000)
          (world (GenerateKeys demoManager (demoEnv 2000)
                           (demoStore\<lparr>keys := demoKeys\<lparr>wgPublicKey := []\<rparr>\<rparr>))))) = 0"
proof -
  note t = first_key_starts_rotation_loop [of demoManager specReceiver "demoStore\<lparr>keys := demoKeys\<lparr>wgPublicKey := []\<rparr>\<rparr>"
                 "demoEnv 2000" "''newpub''" "''newpriv''" "''10.0.0.3''"]
  have h: "StartKeysRotation demoManager (demoStore\<lparr>keys := demoKeys\<lparr>wgPublicKey := []\<rparr>\<rparr>)
             = (None, [EvStopKeysRotation])
       \<and> retErr (GenerateKeys demoManager (demoEnv 2000) (demoStore\<lparr>keys := demoKeys\<lparr>wgPublicKey := []\<rparr>\<rparr>)) = None
       \<and> loopStarts (trace (GenerateKeys demoManager (demoEnv 2000) (demoStore\<lparr>keys := demoKeys\<lparr>wgPublicKey := []\<rparr>\<rparr>))) = 1
       \<and> wgPublicKey (WireGuardGetKeys specReceiver (world (GenerateKeys demoManager (demoEnv 2000) (demoStore\<lparr>keys := demoKeys\<lparr>wgPublicKey := []\<rparr>\<rparr>)))) \<noteq> []
       \<and> (\<forall>f (env' :: Store CallEnv) st'. wgPublicKey (WireGuardGetKeys specReceiver (whileLockWait env' st')) \<noteq> []
             \<longrightarrow> loopStarts (trace (generateKeys f demoManager env' st')) = 0)"
    by (rule t) (simp_all add: demo_defs)
  then have "loopStarts (trace (generateKeys False demoManager (demoEnv 3000)
          (world (GenerateKeys demoManager (demoEnv 2000)
                           (demoStore\<lparr>keys := demoKeys\<lparr>wgPublicKey := []\<rparr>\<rparr>))))) = 0"
    by (simp add: demoEnv_def)
  with h show ?thesis by (simp add: demo_defs)
qed

section \<open>The rotation loop\<close>

lemma loopWaitInterval_not_failed:
  "loopWaitInterval False k nowU nowF nowB =
     (if generatedTime k + time_Until (generatedTime k + updateInterval k) nowU < nowB
      then Second else time_Until (generatedTime k + updateInterval k) nowU)"
  by (simp add: loopWaitInterval_def Let_def Time_Add_def Time_Before_def)


lemma loopWaitInterval_half:
  assumes "minDuration \<le> generatedTime k + updateInterval k - now"
    "generatedTime k + updateInterval k - now \<le> maxDuration"
  shows "loopWaitInterval False k now nowF now =
     (if 2 * generatedTime k + updateInterval k < 2 * now then Second
      else generatedTime k + updateInterval k - now)"
  using assms by (auto simp: loopWaitInterval_not_failed time_Until_def Time_Sub_def)

text \<open>
  Claim C2. The claim: when the previous attempt did not fail, the wait is
  \<open>(generatedTime + updateInterval) - now\<close> when that is positive, and one second exactly
  when it is not. The code compares \<open>lastUpdate + waitInterval\<close> with the clock, where
  \<open>waitInterval\<close> is already the time that remains: once more than half of the interval
  has passed, the wait is one second although the rotation is not due. Here the key is
  generated at 1000 ns, the interval is 7 days and the clock is at 4 days after the
  generation: 3 days remain, and the loop waits one second.
\<close>

theorem rotation_wait_clamped_before_due:
  "time_Until (Time_Add (generatedTime demoKeys) (updateInterval demoKeys)) (1000 + 4 * 24 * Hour)
      = 3 * 24 * Hour
   \<and> loopWaitInterval False demoKeys (1000 + 4 * 24 * Hour) (1000 + 4 * 24 * Hour) (1000 + 4 * 24 * Hour)
      = Second
   \<and> map waited (rotationLoop demoManager
                    [demoLoopEnv (1000 + 4 * 24 * Hour) (Inr (''newpub'', ''newpriv''))] False demoStore)
      = [Second]"
  by (simp add: loopWaitInterval_def time_Until_def Time_Sub_def Time_Add_def Time_Before_def
        demo_defs demoLoopEnv_def minDuration_def maxDuration_def Let_def loopIteration_def)




section \<open>Concurrent attempts\<close>

lemma length_filter_update:
  "i < length xs \<Longrightarrow>
   length (filter P (xs[i := y])) + (if P (xs ! i) then 1 else 0)
     = length (filter P xs) + (if P y then 1 else 0)"
proof (induction xs arbitrary: i)
  case Nil
  then show ?case by simp
next
  case (Cons x xs)
  show ?case
  proof (cases i)
    case 0
    then show ?thesis by simp
  next
    case (Suc n)
    with Cons.prems have "n < length xs" by simp
    from Cons.IH [OF this] Suc show ?thesis by simp
  qed
qed

lemma holders_goto:
  "i < length (calls s) \<Longrightarrow>
   holders (goto i p evs s) + (if pastGuard (pc (calls s ! i)) then 1 else 0)
     = holders s + (if pastGuard p then 1 else 0)"
  using length_filter_update [of i "calls s" "\<lambda>c. pastGuard (pc c)" "(calls s ! i)\<lparr>pc := p\<rparr>"]
  by (simp add: holders_def goto_def)

lemma holders_release:
  "i < length (calls s) \<Longrightarrow>
   holders (release i err evs s) + (if pastGuard (pc (calls s ! i)) then 1 else 0) = holders s"
  using length_filter_update [of i "calls s" "\<lambda>c. pastGuard (pc c)" "(calls s ! i)\<lparr>pc := PcReturned err\<rparr>"]
  by (simp add: holders_def release_def)

lemma holders_capture [simp]:
  "holders (capture i k s) = holders s"
proof (cases "i < length (calls s)")
  case True
  from length_filter_update [OF this, of "\<lambda>c. pastGuard (pc c)" "(calls s ! i)\<lparr>captured := k\<rparr>"]
  show ?thesis by (simp add: holders_def capture_def)
next
  case False
  then show ?thesis by (simp add: holders_def capture_def list_update_beyond not_less)
qed

lemma capture_simps [simp]:
  "mutexLocked (capture i k s) = mutexLocked s"
  "state (capture i k s) = state s"
  "history (capture i k s) = history s"
  "length (calls (capture i k s)) = length (calls s)"
  "i < length (calls s) \<Longrightarrow> pc (calls (capture i k s) ! i) = pc (calls s ! i)"
  by (simp_all add: capture_def)

lemma goto_simps [simp]:
  "mutexLocked (goto i p evs s) = mutexLocked s"
  "state (goto i p evs s) = state s"
  "length (calls (goto i p evs s)) = length (calls s)"
  by (simp_all add: goto_def)

lemma release_simps [simp]:
  "mutexLocked (release i err evs s) = False"
  "state (release i err evs s) = state s"
  "length (calls (release i err evs s)) = length (calls s)"
  by (simp_all add: release_def)

lemma guarded_capture [simp]: "guarded (capture i k s) = guarded s"
  by (simp add: guarded_def)

lemma guarded_state [simp]: "guarded (s\<lparr>state := st\<rparr>) = guarded s"
  by (simp add: guarded_def holders_def)

lemma guarded_goto_same:
  "guarded s \<Longrightarrow> i < length (calls s) \<Longrightarrow> pastGuard (pc (calls s ! i)) = pastGuard p \<Longrightarrow>
   guarded (goto i p evs s)"
  using holders_goto [of i s p evs] by (simp add: guarded_def split: if_splits)

lemma guarded_acquire:
  "guarded s \<Longrightarrow> i < length (calls s) \<Longrightarrow> \<not> mutexLocked s \<Longrightarrow> \<not> pastGuard (pc (calls s ! i)) \<Longrightarrow>
   guarded (goto i PcLocked evs (s\<lparr>mutexLocked := True\<rparr>))"
  using holders_goto [of i "s\<lparr>mutexLocked := True\<rparr>" PcLocked evs]
  by (simp add: guarded_def holders_def)

lemma guarded_release:
  "guarded s \<Longrightarrow> i < length (calls s) \<Longrightarrow> pastGuard (pc (calls s ! i)) \<Longrightarrow>
   guarded (release i err evs s)"
  using holders_release [of i s err evs] by (simp add: guarded_def split: if_splits)

lemma callStep_bound: "callStep m i a s = Some s' \<Longrightarrow> i < length (calls s)"
  by (simp add: callStep_def split: if_splits)

lemma callStep_PcStart:
  "i < length (calls s) \<Longrightarrow> pc (calls s ! i) = PcStart \<Longrightarrow>
   callStep m i a s =
     (case m_service m of
        None \<Rightarrow> Some (goto i (PcReturned (Some ErrNotInitialized)) [] s)
      | Some svc \<Rightarrow>
          Some (goto i
                 (if fst (isNecessaryUpdate (onlyUpdateIfNecessary (calls s ! i))
                            (WireGuardGetKeys svc (state s)) (clock a)) = False
                     \<or> snd (isNecessaryUpdate (onlyUpdateIfNecessary (calls s ! i))
                            (WireGuardGetKeys svc (state s)) (clock a)) \<noteq> None
                  then PcReturned (snd (isNecessaryUpdate (onlyUpdateIfNecessary (calls s ! i))
                            (WireGuardGetKeys svc (state s)) (clock a)))
                  else PcLock)
                 [] (capture i (WireGuardGetKeys svc (state s)) s)))"
  by (simp add: callStep_def Let_def split: option.splits prod.splits)

lemma callStep_PcLock:
  "i < length (calls s) \<Longrightarrow> pc (calls s ! i) = PcLock \<Longrightarrow>
   callStep m i a s =
     (if mutexLocked s then None
      else Some (goto i PcLocked [EvMutexLock] (s\<lparr>mutexLocked := True\<rparr>)))"
  by (simp add: callStep_def)

lemma callStep_PcLocked:
  "i < length (calls s) \<Longrightarrow> pc (calls s ! i) = PcLocked \<Longrightarrow> m_service m = Some svc \<Longrightarrow>
   callStep m i a s =
     (if fst (isNecessaryUpdate (onlyUpdateIfNecessary (calls s ! i))
                (WireGuardGetKeys svc (state s)) (clock a)) = False
         \<or> snd (isNecessaryUpdate (onlyUpdateIfNecessary (calls s ! i))
                (WireGuardGetKeys svc (state s)) (clock a)) \<noteq> None
      then Some (release i (snd (isNecessaryUpdate (onlyUpdateIfNecessary (calls s ! i))
                (WireGuardGetKeys svc (state s)) (clock a))) []
                   (capture i (WireGuardGetKeys svc (state s)) s))
      else Some (goto i PcKeyGen [] (capture i (WireGuardGetKeys svc (state s)) s)))"
  by (simp add: callStep_def Let_def split: prod.splits)

lemma callStep_PcKeyGen:
  "i < length (calls s) \<Longrightarrow> pc (calls s ! i) = PcKeyGen \<Longrightarrow> m_service m = Some svc \<Longrightarrow>
   callStep m i a s =
     (case keygenResult a of
        Inl e \<Rightarrow> Some (release i (Some e) [EvGenerateKeys] s)
      | Inr (pub, priv) \<Rightarrow>
          Some (goto i (PcKeySet pub priv
                          (if Connected svc (state s) = False then []
                           else wgPublicKey (captured (calls s ! i))))
                  [EvGenerateKeys] s))"
  by (simp add: callStep_def Let_def split: sum.splits)

lemma callStep_PcKeySet:
  "i < length (calls s) \<Longrightarrow> pc (calls s ! i) = PcKeySet pub priv old \<Longrightarrow>
   callStep m i a s =
     (let k = captured (calls s ! i);
          ev = EvWireGuardKeySet (session k) pub old
      in case keysetResult a (session k) pub old of
           Inl e \<Rightarrow> Some (release i (Some e) [ev] s)
         | Inr localIP \<Rightarrow> Some (goto i (PcSave pub priv localIP) [ev] s))"
  by (simp add: callStep_def Let_def)

lemma callStep_PcSave:
  "i < length (calls s) \<Longrightarrow> pc (calls s ! i) = PcSave pub priv ip \<Longrightarrow> m_service m = Some svc \<Longrightarrow>
   callStep m i a s =
     (let st' = WireGuardSaveNewKeys svc pub priv ip (clock a) (state s)
      in Some (release i None
                 (EvSaveNewKeys pub priv ip
                  # (if length (wgPublicKey (captured (calls s ! i))) = 0
                     then snd (StartKeysRotation m st') else []))
                 (s\<lparr>state := st'\<rparr>)))"
  by (simp add: callStep_def Let_def)

lemma callStep_no_service:
  "i < length (calls s) \<Longrightarrow> pc (calls s ! i) = PcLocked \<or> pc (calls s ! i) = PcKeyGen
     \<or> pc (calls s ! i) = PcSave pub priv ip \<Longrightarrow>
   m_service m = None \<Longrightarrow> callStep m i a s = None"
  by (auto simp: callStep_def)

lemma callStep_guarded:
  assumes g: "guarded s" and st: "callStep m i a s = Some s'"
  shows "guarded s'"
proof -
  from st have i: "i < length (calls s)" by (rule callStep_bound)
  have ic: "\<And>k. i < length (calls (capture i k s))" using i by simp
  show ?thesis
  proof (cases "pc (calls s ! i)")
    case PcStart
    have n: "\<And>k. \<not> pastGuard (pc (calls (capture i k s) ! i))" using i PcStart by simp
    have n0: "\<not> pastGuard (pc (calls s ! i))" using PcStart by simp
    show ?thesis
    proof (cases "m_service m")
      case None
      with st i PcStart have "s' = goto i (PcReturned (Some ErrNotInitialized)) [] s"
        by (simp add: callStep_PcStart)
      with g i n0 show ?thesis by (simp add: guarded_goto_same)
    next
      case (Some svc)
      define p where "p = (if fst (isNecessaryUpdate (onlyUpdateIfNecessary (calls s ! i))
                            (WireGuardGetKeys svc (state s)) (clock a)) = False
                     \<or> snd (isNecessaryUpdate (onlyUpdateIfNecessary (calls s ! i))
                            (WireGuardGetKeys svc (state s)) (clock a)) \<noteq> None
                  then PcReturned (snd (isNecessaryUpdate (onlyUpdateIfNecessary (calls s ! i))
                            (WireGuardGetKeys svc (state s)) (clock a)))
                  else PcLock)"
      have np: "\<not> pastGuard p" by (simp add: p_def)
      from Some st i PcStart have "s' = goto i p [] (capture i (WireGuardGetKeys svc (state s)) s)"
        by (simp add: callStep_PcStart p_def)
      with g ic n np show ?thesis by (simp add: guarded_goto_same)
    qed
  next
    case PcLock
    with st i have "\<not> mutexLocked s" "s' = goto i PcLocked [EvMutexLock] (s\<lparr>mutexLocked := True\<rparr>)"
      by (simp_all add: callStep_PcLock split: if_splits)
    with g i PcLock show ?thesis by (simp add: guarded_acquire)
  next
    case PcLocked
    have p: "\<And>k. pastGuard (pc (calls (capture i k s) ! i))" using i PcLocked by simp
    show ?thesis
    proof (cases "m_service m")
      case None
      with st i PcLocked show ?thesis by (simp add: callStep_no_service)
    next
      case (Some svc)
      let ?s0 = "capture i (WireGuardGetKeys svc (state s)) s"
      from st i PcLocked Some have
        "s' = goto i PcKeyGen [] ?s0 \<or> (\<exists>err. s' = release i err [] ?s0)"
        by (cases "fst (isNecessaryUpdate (onlyUpdateIfNecessary (calls s ! i))
                (WireGuardGetKeys svc (state s)) (clock a)) = False
         \<or> snd (isNecessaryUpdate (onlyUpdateIfNecessary (calls s ! i))
                (WireGuardGetKeys svc (state s)) (clock a)) \<noteq> None")
           (simp_all only: callStep_PcLocked if_True if_False option.inject, blast+)
      then show ?thesis
      proof
        assume "s' = goto i PcKeyGen [] ?s0"
        with g ic p show ?thesis by (simp add: guarded_goto_same)
      next
        assume "\<exists>err. s' = release i err [] ?s0"
        then obtain err where "s' = release i err [] ?s0" ..
        with g ic p show ?thesis by (simp add: guarded_release)
      qed
    qed
  next
    case PcKeyGen
    show ?thesis
    proof (cases "m_service m")
      case None
      with st i PcKeyGen show ?thesis by (simp add: callStep_no_service)
    next
      case (Some svc)
      show ?thesis
      proof (cases "keygenResult a")
        case (Inl e)
        with st i PcKeyGen Some have "s' = release i (Some e) [EvGenerateKeys] s"
          by (simp add: callStep_PcKeyGen)
        with g i PcKeyGen show ?thesis by (simp add: guarded_release)
      next
        case (Inr kp)
        obtain pub priv where "kp = (pub, priv)" by (cases kp)
        with Inr st i PcKeyGen Some have
          "s' = goto i (PcKeySet pub priv
                          (if Connected svc (state s) = False then []
                           else wgPublicKey (captured (calls s ! i))))
                  [EvGenerateKeys] s"
          by (simp add: callStep_PcKeyGen)
        with g i PcKeyGen show ?thesis by (simp add: guarded_goto_same)
      qed
    qed
  next
    case (PcKeySet pub priv old)
    from st i PcKeySet have
      "(\<exists>ip evs. s' = goto i (PcSave pub priv ip) evs s) \<or> (\<exists>err evs. s' = release i err evs s)"
      by (cases "keysetResult a (session (captured (calls s ! i))) pub old")
         (simp_all add: callStep_PcKeySet Let_def, blast+)
    then show ?thesis
    proof
      assume "\<exists>ip evs. s' = goto i (PcSave pub priv ip) evs s"
      then obtain ip evs where "s' = goto i (PcSave pub priv ip) evs s" by blast
      with g i PcKeySet show ?thesis by (simp add: guarded_goto_same)
    next
      assume "\<exists>err evs. s' = release i err evs s"
      then obtain err evs where "s' = release i err evs s" by blast
      with g i PcKeySet show ?thesis by (simp add: guarded_release)
    qed
  next
    case (PcSave pub priv ip)
    show ?thesis
    proof (cases "m_service m")
      case None
      with st i PcSave show ?thesis by (simp add: callStep_no_service)
    next
      case (Some svc)
      from st i PcSave Some have "\<exists>evs st'. s' = release i None evs (s\<lparr>state := st'\<rparr>)"
        by (simp add: callStep_PcSave Let_def) blast
      then obtain evs st' where s': "s' = release i None evs (s\<lparr>state := st'\<rparr>)" by blast
      from g i PcSave have "guarded (s\<lparr>state := st'\<rparr>)" "i < length (calls (s\<lparr>state := st'\<rparr>))"
        "pastGuard (pc (calls (s\<lparr>state := st'\<rparr>) ! i))" by simp_all
      with s' show ?thesis by (simp add: guarded_release)
    qed
  next
    case (PcReturned e)
    with st i show ?thesis by (simp add: callStep_def)
  qed
qed

lemma perform_guarded:
  assumes "guarded s" "perform m act s = Some s'"
  shows "guarded s'"
proof (cases act)
  case (Step i a)
  with assms(2) have "callStep m i a s = Some s'" by (simp add: perform_def)
  with assms(1) show ?thesis by (rule callStep_guarded)
next
  case (Other f)
  with assms(2) have "s' = s\<lparr>state := f (state s)\<rparr>" by (simp add: perform_def)
  with assms(1) show ?thesis by simp
qed

lemma run_guarded: "guarded s \<Longrightarrow> run m acts s = Some s' \<Longrightarrow> guarded s'"
proof (induction acts arbitrary: s)
  case Nil
  then show ?case by simp
next
  case (Cons act acts)
  from Cons.prems(2) obtain s1 where s1: "perform m act s = Some s1" "run m acts s1 = Some s'"
    by (cases "perform m act s") simp_all
  from perform_guarded [OF Cons.prems(1) s1(1)] have "guarded s1" .
  from Cons.IH [OF this s1(2)] show ?case .
qed

lemma initSys_guarded: "guarded (initSys flags st)"
  by (simp add: guarded_def holders_def initSys_def filter_map o_def)

lemma holders_unique:
  assumes "holders s \<le> 1" "i < length (calls s)" "j < length (calls s)"
    "pastGuard (pc (calls s ! i))" "pastGuard (pc (calls s ! j))"
  shows "i = j"
proof (rule ccontr)
  assume ne: "i \<noteq> j"
  let ?S = "{n. n < length (calls s) \<and> pastGuard (pc (calls s ! n))}"
  have h: "holders s = card ?S"
    by (simp add: holders_def length_filter_conv_card)
  have "{i, j} \<subseteq> ?S" using assms by simp
  moreover have "finite ?S" by simp
  ultimately have "card {i, j} \<le> card ?S" by (rule card_mono [rotated])
  with ne have "2 \<le> card ?S" by simp
  with h assms(1) show False by simp
qed

text \<open>
  The interleaved system and \<open>generateKeys\<close> describe the same call: one call alone, run
  on the schedule of its \<open>CallEnv\<close>, returns the error of \<open>generateKeys\<close>, leaves the
  receiver's state of \<open>generateKeys\<close>, has done what its trace says, and has released the
  mutex.
\<close>

lemma one_call_alone_is_generateKeys:
  fixes m :: "'s KeysManager"
  shows "\<exists>s'. untilReturned m (scheduleOf env) (initSys [f] st) = Some s'
     \<and> pc (calls s' ! 0) = PcReturned (retErr (generateKeys f m env st))
     \<and> state s' = world (generateKeys f m env st)
     \<and> map snd (history s') = trace (generateKeys f m env st)
     \<and> \<not> mutexLocked s'"
proof (cases rule: generateKeys_cases [of m f env st])
  case NotInitialized
  then show ?thesis
    by (simp add: scheduleOf_def answersOf_def initSys_def callStep_def perform_def goto_def)
next
  case (Skipped svc h e)
  then show ?thesis
    by (auto simp: scheduleOf_def answersOf_def initSys_def callStep_def perform_def goto_def
          capture_def Let_def)
next
  case (SkippedLocked svc h e)
  then show ?thesis
    by (auto simp: scheduleOf_def answersOf_def initSys_def callStep_def perform_def goto_def
          capture_def release_def Let_def)
next
  case (KeyGenFailed svc e)
  then show ?thesis
    by (simp add: scheduleOf_def answersOf_def initSys_def callStep_def perform_def goto_def
          capture_def release_def Let_def)
next
  case (KeySetFailed svc pub priv old e)
  then show ?thesis
    by (cases "Connected svc (whileKeyGen env (whileLockWait env st))")
       (simp_all add: scheduleOf_def answersOf_def initSys_def callStep_def perform_def goto_def
          capture_def release_def Let_def)
next
  case (Saved svc pub priv old localIP st')
  then show ?thesis
    by (cases "Connected svc (whileKeyGen env (whileLockWait env st))")
       (simp_all add: scheduleOf_def answersOf_def initSys_def callStep_def perform_def goto_def
          capture_def release_def Let_def o_def)
qed

text \<open>
  Claim C8. In every state that a schedule of concurrent calls of \<open>generateKeys\<close> (forced or
  not, with anything else changing the receiver's state in between) reaches from the
  start: at most one call is past \<open>m._mutex.Lock()\<close>, the mutex is held exactly when one
  is, and two calls past it are the same call. A call with \<open>onlyUpdateIfNecessary\<close> that
  has just got the mutex reads the state as it is then: if it finds an interval above 0,
  a non-empty public key and a clock before \<open>generatedTime + updateInterval\<close> (as after
  an attempt that has just saved new keys), it returns no error, releases the mutex, and
  leaves the state as it is.
\<close>

theorem one_attempt_past_guard:
  fixes m :: "'s KeysManager"
  assumes "run m acts (initSys flags st) = Some s"
  shows "holders s \<le> 1
       \<and> (mutexLocked s \<longleftrightarrow> holders s = 1)
       \<and> (\<forall>i j. i < length (calls s) \<longrightarrow> j < length (calls s) \<longrightarrow>
              pastGuard (pc (calls s ! i)) \<longrightarrow> pastGuard (pc (calls s ! j)) \<longrightarrow> i = j)
       \<and> (\<forall>i (a :: Answers) svc. m_service m = Some svc \<longrightarrow> i < length (calls s) \<longrightarrow>
              pc (calls s ! i) = PcLocked \<longrightarrow> onlyUpdateIfNecessary (calls s ! i) \<longrightarrow>
              0 < updateInterval (WireGuardGetKeys svc (state s)) \<longrightarrow>
              wgPublicKey (WireGuardGetKeys svc (state s)) \<noteq> [] \<longrightarrow>
              clock a < generatedTime (WireGuardGetKeys svc (state s))
                          + updateInterval (WireGuardGetKeys svc (state s)) \<longrightarrow>
              (\<exists>s'. callStep m i a s = Some s' \<and> pc (calls s' ! i) = PcReturned None
                    \<and> state s' = state s \<and> \<not> mutexLocked s'
                    \<and> history s' = history s @ [(i, EvMutexUnlock)]))"
proof -
  from run_guarded [OF initSys_guarded assms] have g: "guarded s" .
  then have a: "holders s \<le> 1" by (simp add: guarded_def split: if_splits)
  from g have b: "mutexLocked s \<longleftrightarrow> holders s = 1" by (simp add: guarded_def split: if_splits)
  have c: "\<forall>i j. i < length (calls s) \<longrightarrow> j < length (calls s) \<longrightarrow>
              pastGuard (pc (calls s ! i)) \<longrightarrow> pastGuard (pc (calls s ! j)) \<longrightarrow> i = j"
    using holders_unique [OF a] by blast
  have d: "\<forall>i (a :: Answers) svc. m_service m = Some svc \<longrightarrow> i < length (calls s) \<longrightarrow>
              pc (calls s ! i) = PcLocked \<longrightarrow> onlyUpdateIfNecessary (calls s ! i) \<longrightarrow>
              0 < updateInterval (WireGuardGetKeys svc (state s)) \<longrightarrow>
              wgPublicKey (WireGuardGetKeys svc (state s)) \<noteq> [] \<longrightarrow>
              clock a < generatedTime (WireGuardGetKeys svc (state s))
                          + updateInterval (WireGuardGetKeys svc (state s)) \<longrightarrow>
              (\<exists>s'. callStep m i a s = Some s' \<and> pc (calls s' ! i) = PcReturned None
                    \<and> state s' = state s \<and> \<not> mutexLocked s'
                    \<and> history s' = history s @ [(i, EvMutexUnlock)])"
  proof (intro allI impI)
    fix i and a :: Answers and svc
    assume h: "m_service m = Some svc" "i < length (calls s)" "pc (calls s ! i) = PcLocked"
      "onlyUpdateIfNecessary (calls s ! i)"
      "0 < updateInterval (WireGuardGetKeys svc (state s))"
      "wgPublicKey (WireGuardGetKeys svc (state s)) \<noteq> []"
      "clock a < generatedTime (WireGuardGetKeys svc (state s))
                          + updateInterval (WireGuardGetKeys svc (state s))"
    let ?k = "WireGuardGetKeys svc (state s)"
    from h have n: "isNecessaryUpdate (onlyUpdateIfNecessary (calls s ! i)) ?k (clock a) = (False, None)"
      by (simp add: isNecessaryUpdate_due)
    from h n have "callStep m i a s = Some (release i None [] (capture i ?k s))"
      by (simp add: callStep_PcLocked)
    moreover from h have "pc (calls (release i None [] (capture i ?k s)) ! i) = PcReturned None"
      by (simp add: release_def capture_def)
    moreover have "history (release i None [] (capture i ?k s)) = history s @ [(i, EvMutexUnlock)]"
      by (simp add: release_def capture_def)
    ultimately show "\<exists>s'. callStep m i a s = Some s' \<and> pc (calls s' ! i) = PcReturned None
                    \<and> state s' = state s \<and> \<not> mutexLocked s'
                    \<and> history s' = history s @ [(i, EvMutexUnlock)]"
      by simp
  qed
  show ?thesis by (intro conjI a b c d)
qed

lemmas step_defs = callStep_def perform_def goto_def release_def capture_def initSys_def
  demoAnswers_def isNecessaryUpdate_def Time_After_def Time_Add_def Let_def StartKeysRotation_def

lemma demo_run_mid2:
  "run demoManager (take 6 demoSchedule) (initSys [True, True] demoStore) = Some demoMid"
  by (simp add: demoSchedule_def step_defs demo_defs demoMid_def)

lemma demo_run_blocked:
  "run demoManager (take 6 demoSchedule @ [Step 1 (demoAnswers 700000000000000)])
      (initSys [True, True] demoStore) = None"
  by (simp add: demoSchedule_def step_defs demo_defs)

lemma demo_run_final:
  "run demoManager demoSchedule (initSys [True, True] demoStore) = Some demoFinal"
  by (simp add: demoSchedule_def step_defs demo_defs demoFinal_def demoRotated_def)

theorem one_attempt_past_guard_witness:
  "run demoManager (take 6 demoSchedule) (initSys [True, True] demoStore) = Some demoMid
   \<and> holders demoMid = 1 \<and> mutexLocked demoMid
   \<and> run demoManager (take 6 demoSchedule @ [Step 1 (demoAnswers 700000000000000)])
        (initSys [True, True] demoStore) = None
   \<and> run demoManager demoSchedule (initSys [True, True] demoStore) = Some demoFinal
   \<and> holders demoFinal = 0
   \<and> map pc (calls demoFinal) = [PcReturned None, PcReturned None]
   \<and> length (filter (\<lambda>e. isSave (snd e)) (history demoFinal)) = 1
   \<and> length (filter (\<lambda>e. snd e = EvGenerateKeys) (history demoFinal)) = 1"
  using one_attempt_past_guard [OF demo_run_mid2] one_attempt_past_guard [OF demo_run_final] demo_run_mid2 demo_run_blocked demo_run_final
  by (simp add: demoMid_def demoFinal_def holders_def)

section \<open>Loading the preferences and setting the session\<close>

lemma LoadPreferences_current:
  assumes "LoadPreferences env p = (None, p', w)"
    and "ioutil_ReadFile env = Inr data"
    and "\<not> strings_Contains data ''\"firewall_is_persistent\"''"
  shows "\<exists>p1. json_Unmarshal env data p = (None, p1)
     \<and> WGPublicKey (Session p') = WGPublicKey (Session p1)
     \<and> WGPrivateKey (Session p') = WGPrivateKey (Session p1)
     \<and> WGLocalIP (Session p') = WGLocalIP (Session p1)
     \<and> WGKeyGenerated (Session p') =
           (if WGPublicKey (Session p1) = [] \<or> WGPrivateKey (Session p1) = []
               \<or> WGLocalIP (Session p1) = [] then zeroTime
            else WGKeyGenerated (Session p1))
     \<and> WGKeysRegenInerval (Session p') =
           (if WGKeysRegenInerval (Session p1) \<le> 0 then DefaultWGKeysInterval
            else WGKeysRegenInerval (Session p1))"
proof -
  obtain e p1 where u: "json_Unmarshal env data p = (e, p1)"
    by (cases "json_Unmarshal env data p")
  with assms have e: "e = None"
    by (cases e) (simp_all add: LoadPreferences_def)
  define p2 where "p2 = (if length (WGPublicKey (Session p1)) = 0
                               \<or> length (WGPrivateKey (Session p1)) = 0
                               \<or> length (WGLocalIP (Session p1)) = 0
                            then p1\<lparr>Session := (Session p1)\<lparr>WGKeyGenerated := zeroTime\<rparr>\<rparr>
                            else p1)"
  have p2: "WGPublicKey (Session p2) = WGPublicKey (Session p1)"
    "WGPrivateKey (Session p2) = WGPrivateKey (Session p1)"
    "WGLocalIP (Session p2) = WGLocalIP (Session p1)"
    "WGKeysRegenInerval (Session p2) = WGKeysRegenInerval (Session p1)"
    "WGKeyGenerated (Session p2) =
           (if WGPublicKey (Session p1) = [] \<or> WGPrivateKey (Session p1) = []
               \<or> WGLocalIP (Session p1) = [] then zeroTime
            else WGKeyGenerated (Session p1))"
    by (simp_all add: p2_def)
  have l: "LoadPreferences env p =
      (if WGKeysRegenInerval (Session p2) \<le> 0
       then (None, p2\<lparr>Session := (Session p2)\<lparr>WGKeysRegenInerval := DefaultWGKeysInterval\<rparr>\<rparr>,
             snd (SavePreferences env (p2\<lparr>Session := (Session p2)\<lparr>WGKeysRegenInerval := DefaultWGKeysInterval\<rparr>\<rparr>)))
       else (None, p2, []))"
    using assms(2,3) u e by (simp add: LoadPreferences_def Let_def p2_def)
  show ?thesis
  proof (cases "WGKeysRegenInerval (Session p2) \<le> 0")
    case True
    with l assms(1) have "p' = p2\<lparr>Session := (Session p2)\<lparr>WGKeysRegenInerval := DefaultWGKeysInterval\<rparr>\<rparr>"
      by simp
    with True u e p2 show ?thesis by simp
  next
    case False
    with l assms(1) have "p' = p2" by simp
    with False u e p2 show ?thesis by simp
  qed
qed

lemmas demo_prefs_defs = demoSession_def demoPrefs_def demoPrefsEnv_def

text \<open>
  Claim C9. After \<open>LoadPreferences\<close> has returned no error on a settings file without the
  marker of the old format: if \<open>WGPublicKey\<close>, \<open>WGPrivateKey\<close> or \<open>WGLocalIP\<close> of the
  session is empty, \<open>WGKeyGenerated\<close> is the zero time.
\<close>

theorem load_resets_generation_time:
  assumes "LoadPreferences env p = (None, p', w)"
    and "ioutil_ReadFile env = Inr data"
    and "\<not> strings_Contains data ''\"firewall_is_persistent\"''"
    and "WGPublicKey (Session p') = [] \<or> WGPrivateKey (Session p') = [] \<or> WGLocalIP (Session p') = []"
  shows "WGKeyGenerated (Session p') = zeroTime"
  using LoadPreferences_current [OF assms(1-3)] assms(4) by auto

theorem load_resets_generation_time_witness:
  "LoadPreferences demoPrefsEnv demoPrefs
      = (None, demoPrefs\<lparr>IsLogging := True,
                          Session := demoSession\<lparr>WGKeyGenerated := zeroTime,
                                                  WGKeysRegenInerval := DefaultWGKeysInterval\<rparr>\<rparr>,
         [''{}''])
   \<and> ioutil_ReadFile demoPrefsEnv = Inr ''{\"IsLogging\":true}''
   \<and> \<not> strings_Contains ''{\"IsLogging\":true}'' ''\"firewall_is_persistent\"''
   \<and> WGPrivateKey demoSession = []
   \<and> WGKeyGenerated demoSession = 5000
   \<and> WGKeyGenerated (Session (fst (snd (LoadPreferences demoPrefsEnv demoPrefs)))) = zeroTime"
proof -
  have l: "LoadPreferences demoPrefsEnv demoPrefs
      = (None, demoPrefs\<lparr>IsLogging := True,
                          Session := demoSession\<lparr>WGKeyGenerated := zeroTime,
                                                  WGKeysRegenInerval := DefaultWGKeysInterval\<rparr>\<rparr>,
         [''{}''])"
    by (simp add: LoadPreferences_def demo_prefs_defs SavePreferences_def Let_def)
  have c: "\<not> strings_Contains ''{\"IsLogging\":true}'' ''\"firewall_is_persistent\"''"
    by simp
  have r: "ioutil_ReadFile demoPrefsEnv = Inr ''{\"IsLogging\":true}''"
    by (simp add: demoPrefsEnv_def)
  have "WGKeyGenerated (Session (demoPrefs\<lparr>IsLogging := True,
                          Session := demoSession\<lparr>WGKeyGenerated := zeroTime,
                                                  WGKeysRegenInerval := DefaultWGKeysInterval\<rparr>\<rparr>)) = zeroTime"
    by (rule load_resets_generation_time [OF l r c]) (simp add: demoSession_def)
  with l r c show ?thesis by (simp add: demoSession_def)
qed




end
